theory Spec2Isabelle
  imports Complex_Main "HOL-Library.Word" "HOL-Library.Stream"
begin

unbundle bit_operations_syntax

section \<open>Exceptions and warnings\<close>

text \<open>
  Every \<^verbatim>\<open>raise\<close> of the sources is a value of \<open>error\<close>; a function that can
  raise returns \<open>error + 'a\<close> with \<open>Inl\<close> for the exception. The string is the fixed part
  of the exception's message. \<open>StructError\<close> is \<^verbatim>\<open>struct.error\<close>, raised by
  \<^verbatim>\<open>struct.pack\<close> for a number outside the range of its format code.
\<close>

datatype error =
    ValueError string
  | TypeError string
  | ZeroDivisionError
  | StructError
  | CalculatorServerError string
  | CalculatorClientError string

text \<open>
  \<^verbatim>\<open>warnings.warn\<close> does not interrupt construction; the warnings a constructor
  issues are returned beside the header, in the order of the source.
\<close>

datatype warning =
    LengthMismatch
  | ReservedNotZero
  | RequestStatusNotZero
  | CacheControlIgnored
  | ResponseNotCached

section \<open>The header codec (api.py)\<close>

type_synonym byte = "8 word"

text \<open>
  The fields are Python integers, so they are \<open>int\<close> here; their ranges are enforced
  only where the source enforces them (the constructor for the lengths,
  \<^verbatim>\<open>struct.pack\<close> for the four packed numbers).
\<close>

record CalculatorHeader =
  unix_time_stamp :: int
  total_length :: int
  reserved :: int
  cache_result :: bool
  show_steps :: bool
  is_request :: bool
  status_code :: int
  cache_control :: int
  data :: "byte list"

definition HEADER_MIN_LENGTH :: int where
  "HEADER_MIN_LENGTH = 12"

definition HEADER_MAX_LENGTH :: int where
  "HEADER_MAX_LENGTH = 2 ^ 16"

definition HEADER_MAX_DATA_LENGTH :: int where
  "HEADER_MAX_DATA_LENGTH = HEADER_MAX_LENGTH - HEADER_MIN_LENGTH"

definition MAX_CACHE_CONTROL :: int where
  "MAX_CACHE_CONTROL = 2 ^ 16 - 1"

definition STATUS_OK :: int where
  "STATUS_OK = 200"

definition STATUS_CLIENT_ERROR :: int where
  "STATUS_CLIENT_ERROR = 400"

definition STATUS_SERVER_ERROR :: int where
  "STATUS_SERVER_ERROR = 500"

text \<open>
  \<^verbatim>\<open>struct.pack('!LHHHxx', ...)\<close>: big-endian, an unsigned number of 4 bytes, three
  of 2 bytes, two zero pad bytes. A number outside its code's range raises
  \<^verbatim>\<open>struct.error\<close>. \<open>be_bytes n x\<close> are the \<open>n\<close> low bytes of \<open>x\<close>, most
  significant first; \<open>be_int\<close> reads such bytes back.
\<close>

fun be_bytes :: "nat \<Rightarrow> int \<Rightarrow> byte list" where
  "be_bytes 0 x = []"
| "be_bytes (Suc n) x = be_bytes n (x div 256) @ [word_of_int (x mod 256)]"

definition be_int :: "byte list \<Rightarrow> int" where
  "be_int bs = foldl (\<lambda>acc b. acc * 256 + uint b) 0 bs"

definition pack_uint :: "nat \<Rightarrow> int \<Rightarrow> error + byte list" where
  "pack_uint n x =
     (if 0 \<le> x \<and> x < 2 ^ (8 * n) then Inr (be_bytes n x) else Inl StructError)"

definition struct_pack :: "int \<Rightarrow> int \<Rightarrow> int \<Rightarrow> int \<Rightarrow> error + byte list" where
  "struct_pack ts tlen fl cc =
     (case pack_uint 4 ts of Inl e \<Rightarrow> Inl e | Inr b1 \<Rightarrow>
     (case pack_uint 2 tlen of Inl e \<Rightarrow> Inl e | Inr b2 \<Rightarrow>
     (case pack_uint 2 fl of Inl e \<Rightarrow> Inl e | Inr b3 \<Rightarrow>
     (case pack_uint 2 cc of Inl e \<Rightarrow> Inl e | Inr b4 \<Rightarrow>
        Inr (b1 @ b2 @ b3 @ b4 @ [0 :: byte, 0])))))"

definition struct_unpack :: "byte list \<Rightarrow> error + (int \<times> int \<times> int \<times> int)" where
  "struct_unpack bs =
     (if length bs \<noteq> 12 then Inl StructError
      else Inr (be_int (take 4 bs), be_int (take 2 (drop 4 bs)),
                be_int (take 2 (drop 6 bs)), be_int (take 2 (drop 8 bs))))"

text \<open>
  \<^verbatim>\<open>CalculatorHeader.__init__\<close>. \<open>total_length\<close> is optional (\<^verbatim>\<open>None\<close>: computed
  from the data). The two \<^verbatim>\<open>raise ValueError\<close> are the only failures; the four
  anomaly checks warn, and only the cache pair changes a field.
\<close>

definition CalculatorHeader_init ::
  "int \<Rightarrow> int option \<Rightarrow> int \<Rightarrow> bool \<Rightarrow> bool \<Rightarrow> bool \<Rightarrow> int \<Rightarrow> int \<Rightarrow> byte list
     \<Rightarrow> error + (CalculatorHeader \<times> warning list)" where
  "CalculatorHeader_init ts tlen r c s q st cc d =
     (let total = (case tlen of None \<Rightarrow> HEADER_MIN_LENGTH + int (length d) | Some n \<Rightarrow> n) in
      if \<not> (HEADER_MIN_LENGTH \<le> total \<and> total \<le> HEADER_MAX_LENGTH)
      then Inl (ValueError ''Invalid total length'')
      else
        let w1 = (if total \<noteq> HEADER_MIN_LENGTH + int (length d) then [LengthMismatch] else []);
            w2 = (if r \<noteq> 0 then [ReservedNotZero] else []);
            w3 = (if q \<and> st \<noteq> 0 then [RequestStatusNotZero] else []);
            (cc', c', w4) =
              (if cc \<noteq> 0 \<and> \<not> c then (0, c, [CacheControlIgnored])
               else if \<not> q \<and> cc = 0 \<and> c then (cc, False, [ResponseNotCached])
               else (cc, c, []))
        in if int (length d) > HEADER_MAX_DATA_LENGTH
           then Inl (ValueError ''Invalid data length'')
           else Inr (\<lparr>unix_time_stamp = ts, total_length = total, reserved = r,
                       cache_result = c', show_steps = s, is_request = q,
                       status_code = st, cache_control = cc', data = d\<rparr>,
                     w1 @ w2 @ w3 @ w4))"

text \<open>
  The warnings of the constructor, for a total length \<open>tot\<close> and \<open>n\<close> bytes of data,
  used to state what the constructor returns.
\<close>

definition init_warnings :: "int \<Rightarrow> nat \<Rightarrow> int \<Rightarrow> bool \<Rightarrow> bool \<Rightarrow> int \<Rightarrow> int \<Rightarrow> warning list" where
  "init_warnings tot n r c q st cc =
     (if tot \<noteq> 12 + int n then [LengthMismatch] else [])
     @ (if r \<noteq> 0 then [ReservedNotZero] else [])
     @ (if q \<and> st \<noteq> 0 then [RequestStatusNotZero] else [])
     @ (if cc \<noteq> 0 \<and> \<not> c then [CacheControlIgnored]
        else if \<not> q \<and> cc = 0 \<and> c then [ResponseNotCached] else [])"

text \<open>
  \<^verbatim>\<open>pack_flags\<close> and \<^verbatim>\<open>unpack_flags\<close>: Python's \<^verbatim>\<open><<\<close>, \<^verbatim>\<open>>>\<close>, \<^verbatim>\<open>|\<close>
  and \<^verbatim>\<open>&\<close> on unbounded integers; a \<^verbatim>\<open>bool\<close> operand counts as 0 or 1.
\<close>

definition pack_flags :: "int \<Rightarrow> bool \<Rightarrow> bool \<Rightarrow> bool \<Rightarrow> int \<Rightarrow> int" where
  "pack_flags r c s q st =
     push_bit 13 r OR push_bit 12 (of_bool c) OR push_bit 11 (of_bool s)
       OR push_bit 10 (of_bool q) OR st"

definition unpack_flags :: "int \<Rightarrow> int \<times> bool \<times> bool \<times> bool \<times> int" where
  "unpack_flags flags =
     (let status = flags AND (push_bit 10 1 - 1);
          request = flags AND push_bit 10 1;
          steps = flags AND push_bit 11 1;
          cache = flags AND push_bit 12 1;
          res = drop_bit 13 flags AND (push_bit 3 1 - 1)
      in (res, cache \<noteq> 0, steps \<noteq> 0, request \<noteq> 0, status))"

definition pack :: "CalculatorHeader \<Rightarrow> error + byte list" where
  "pack h =
     (case struct_pack (unix_time_stamp h) (total_length h)
             (pack_flags (reserved h) (cache_result h) (show_steps h) (is_request h)
                (status_code h))
             (cache_control h) of
        Inl e \<Rightarrow> Inl e
      | Inr bs \<Rightarrow> Inr (bs @ data h))"

definition unpack :: "byte list \<Rightarrow> error + (CalculatorHeader \<times> warning list)" where
  "unpack bs =
     (if int (length bs) < HEADER_MIN_LENGTH
      then Inl (ValueError ''The data is too short'')
      else
        case struct_unpack (take 12 bs) of
          Inl e \<Rightarrow> Inl e
        | Inr (ts, tlen, flags, cc) \<Rightarrow>
            (case unpack_flags flags of
               (r, c, s, q, st) \<Rightarrow> CalculatorHeader_init ts (Some tlen) r c s q st cc (drop 12 bs)))"

text \<open>
  The named constructors; \<open>now\<close> is the value of \<^verbatim>\<open>int(time.time())\<close> at the call.
\<close>

definition from_request ::
  "int \<Rightarrow> byte list \<Rightarrow> bool \<Rightarrow> bool \<Rightarrow> int \<Rightarrow> error + (CalculatorHeader \<times> warning list)" where
  "from_request now d steps cache cc =
     CalculatorHeader_init now None 0 cache steps True 0 cc d"

definition from_response ::
  "int \<Rightarrow> byte list \<Rightarrow> int \<Rightarrow> bool \<Rightarrow> bool \<Rightarrow> int
     \<Rightarrow> error + (CalculatorHeader \<times> warning list)" where
  "from_response now d st steps cache cc =
     CalculatorHeader_init now None 0 cache steps False st cc d"

section \<open>The expression model (calculator.py)\<close>

text \<open>
  \<open>'v\<close> is the type of the numbers (\<^verbatim>\<open>numbers.Real\<close>). An operator carries the host
  function it applies. Such a function may raise, and one of the predefined ones
  (\<^verbatim>\<open>random.uniform\<close>, the function \<^verbatim>\<open>rand\<close>) reads and advances the interpreter's
  random generator: so a host function takes the generator's state \<open>'g\<close> beside its
  arguments and returns the new state beside its result or its exception.
\<close>

datatype Associativity = LEFT | RIGHT

datatype ('v, 'g) BinaryOperator =
  BinaryOperator (bin_symbol: string)
    (bin_function: "'v \<Rightarrow> 'v \<Rightarrow> 'g \<Rightarrow> (error + 'v) \<times> 'g")
    (associativity: Associativity)

datatype ('v, 'g) UnaryOperator =
  UnaryOperator (un_symbol: string) (un_function: "'v \<Rightarrow> 'g \<Rightarrow> (error + 'v) \<times> 'g")

datatype ('v, 'g) Function =
  Function (fn_name: string) (fn_function: "'v list \<Rightarrow> 'g \<Rightarrow> (error + 'v) \<times> 'g")

text \<open>
  The five node classes. A raw number where an expression is expected is wrapped by
  \<^verbatim>\<open>type_fallback\<close> into \<^verbatim>\<open>Constant\<close>, so it is a \<open>Constant\<close> here. A
  \<^verbatim>\<open>NamedConstant\<close> holds a number, as the three predefined ones do.
  \<open>OtherExpression\<close> stands for an instance of \<^verbatim>\<open>Expression\<close> of any other class, the
  case the last branch of \<^verbatim>\<open>calculate\<close> is written for; its string is what its
  \<^verbatim>\<open>__str__\<close> returns.
\<close>

datatype ('v, 'g) expr =
    Constant 'v
  | NamedConstant string 'v
  | BinaryExpr "('v, 'g) expr" "('v, 'g) BinaryOperator" "('v, 'g) expr"
  | UnaryExpr "('v, 'g) UnaryOperator" "('v, 'g) expr"
  | FunctionCallExpr "('v, 'g) Function" "('v, 'g) expr list"
  | OtherExpression string

text \<open>\<^verbatim>\<open>sep.join(xs)\<close>.\<close>

fun join :: "string \<Rightarrow> string list \<Rightarrow> string" where
  "join sep [] = []"
| "join sep [x] = x"
| "join sep (x # y # ys) = x @ sep @ join sep (y # ys)"

fun is_BinaryExpr :: "('v, 'g) expr \<Rightarrow> bool" where
  "is_BinaryExpr (BinaryExpr l opr r) = True"
| "is_BinaryExpr e = False"

text \<open>
  \<^verbatim>\<open>__str__\<close> and \<^verbatim>\<open>__str_brackets__\<close> of the node classes; \<open>sh\<close> is Python's
  \<^verbatim>\<open>str\<close> on a number.
\<close>

fun str_expr :: "('v \<Rightarrow> string) \<Rightarrow> ('v, 'g) expr \<Rightarrow> string" where
  "str_expr sh (Constant v) = sh v"
| "str_expr sh (NamedConstant name v) = name"
| "str_expr sh (BinaryExpr l opr r) =
     (let left = str_expr sh l;
          right = str_expr sh r;
          left = (if is_BinaryExpr l then ''('' @ left @ '')'' else left);
          right = (if is_BinaryExpr r then ''('' @ right @ '')'' else right)
      in left @ '' '' @ bin_symbol opr @ '' '' @ right)"
| "str_expr sh (UnaryExpr opr x) = un_symbol opr @ str_expr sh x"
| "str_expr sh (FunctionCallExpr f args) =
     fn_name f @ ''('' @ join '', '' (map (str_expr sh) args) @ '')''"
| "str_expr sh (OtherExpression s) = s"

fun str_brackets :: "('v \<Rightarrow> string) \<Rightarrow> ('v, 'g) expr \<Rightarrow> string" where
  "str_brackets sh (BinaryExpr l opr r) =
     ''('' @ str_brackets sh l @ '' '' @ bin_symbol opr @ '' '' @ str_brackets sh r @ '')''"
| "str_brackets sh (UnaryExpr opr x) = un_symbol opr @ ''('' @ str_brackets sh x @ '')''"
| "str_brackets sh (FunctionCallExpr f args) =
     fn_name f @ ''('' @ join '', '' (map (str_brackets sh) args) @ '')''"
| "str_brackets sh e = str_expr sh e"

subsection \<open>stringify and its bracket pass\<close>

text \<open>
  The first loop of \<^verbatim>\<open>stringify\<close>: \<open>i\<close> is the position, the stack's top is the head
  of the list, and \<open>matchings\<close> is the dictionary in insertion order (each key is
  inserted once, when its bracket closes).
\<close>

fun match_brackets ::
  "nat \<Rightarrow> string \<Rightarrow> nat list \<Rightarrow> (nat \<times> nat) list \<Rightarrow> error + (nat \<times> nat) list" where
  "match_brackets i [] stack matchings =
     (if stack \<noteq> [] then Inl (ValueError ''Unmatched opening bracket'') else Inr matchings)"
| "match_brackets i (ch # cs) stack matchings =
     (if ch = CHR ''('' then match_brackets (i + 1) cs (i # stack) matchings
      else if ch = CHR '')'' then
        (case stack of
           [] \<Rightarrow> Inl (ValueError ''Unmatched closing bracket'')
         | left # rest \<Rightarrow> match_brackets (i + 1) cs rest (matchings @ [(left, i)]))
      else match_brackets (i + 1) cs stack matchings)"

text \<open>Python's \<^verbatim>\<open>s[a:b]\<close> for \<open>0 \<le> a\<close> and \<open>0 \<le> b\<close>.\<close>

definition slice :: "nat \<Rightarrow> nat \<Rightarrow> 'a list \<Rightarrow> 'a list" where
  "slice a b s = take (b - a) (drop a s)"

text \<open>
  One turn of the second loop: the positions come from \<open>matchings\<close>, computed on the
  string as it was before the loop, and are applied to the string as it is now.
\<close>

definition remove_pair :: "(nat \<times> nat) list \<Rightarrow> string \<Rightarrow> nat \<times> nat \<Rightarrow> string" where
  "remove_pair matchings expr_s p =
     (case p of (left, right) \<Rightarrow>
        if map_of matchings (left + 1) = Some (right - 1)
        then take left expr_s @ slice (left + 1) (right - 1) expr_s @ drop right expr_s
        else expr_s)"

text \<open>
  The part of \<^verbatim>\<open>stringify\<close> below the comment \<^verbatim>\<open># Remove unnecessary brackets\<close>,
  as a function of the rendered string.
\<close>

definition remove_unnecessary_brackets :: "string \<Rightarrow> error + string" where
  "remove_unnecessary_brackets expr_s0 =
     (case match_brackets 0 expr_s0 [] [] of
        Inl e \<Rightarrow> Inl e
      | Inr matchings \<Rightarrow>
          let expr_s = foldl (remove_pair matchings) expr_s0 matchings
          in if map_of matchings 0 \<noteq> None
                \<and> int (the (map_of matchings 0)) = int (length expr_s) - 1
             then Inr (butlast (tl expr_s))
             else Inr expr_s)"

definition stringify :: "('v \<Rightarrow> string) \<Rightarrow> ('v, 'g) expr \<Rightarrow> bool \<Rightarrow> error + string" where
  "stringify sh e add_brackets =
     remove_unnecessary_brackets (if add_brackets then str_brackets sh e else str_expr sh e)"

section \<open>The evaluator (server.py)\<close>

text \<open>
  \<^verbatim>\<open>calculate(expression, steps)\<close> appends to the list \<open>steps\<close> it is given and
  returns that list; the recursive calls are given fresh lists. The model returns the
  result or the exception, the contents of \<open>steps\<close> when the call ends (also when it
  ends by an exception, since the appends made before stay in the caller's list), and
  the generator's state. \<open>calculate_args\<close> is the loop over \<^verbatim>\<open>expr.args\<close>:
  \<open>all_args\<close> is \<^verbatim>\<open>expr.args\<close>, \<open>args\<close> the values computed so far, \<open>todo\<close> the
  arguments the loop has not reached.
\<close>

fun calculate ::
  "('v, 'g) expr \<Rightarrow> ('v, 'g) expr list \<Rightarrow> 'g \<Rightarrow> (error + 'v) \<times> ('v, 'g) expr list \<times> 'g"
and calculate_args ::
  "('v, 'g) Function \<Rightarrow> ('v, 'g) expr list \<Rightarrow> 'v list \<Rightarrow> ('v, 'g) expr list
     \<Rightarrow> ('v, 'g) expr list \<Rightarrow> 'g \<Rightarrow> (error + 'v list) \<times> ('v, 'g) expr list \<times> 'g" where
  "calculate (Constant v) steps g = (Inr v, steps, g)"
| "calculate (NamedConstant name v) steps g = (Inr v, steps, g)"
| "calculate (BinaryExpr l opr r) steps g =
     (case calculate l [] g of
        (Inl e, left_steps, g1) \<Rightarrow> (Inl e, steps, g1)
      | (Inr left, left_steps, g1) \<Rightarrow>
          let steps1 = steps @ map (\<lambda>step. BinaryExpr step opr r) (butlast left_steps) in
          (case calculate r [] g1 of
             (Inl e, right_steps, g2) \<Rightarrow> (Inl e, steps1, g2)
           | (Inr right, right_steps, g2) \<Rightarrow>
               let steps2 = steps1
                     @ map (\<lambda>step. BinaryExpr (Constant left) opr step) (butlast right_steps);
                   steps3 = steps2 @ [BinaryExpr (Constant left) opr (Constant right)] in
               (case bin_function opr left right g2 of
                  (Inl e, g3) \<Rightarrow> (Inl e, steps3, g3)
                | (Inr v, g3) \<Rightarrow> (Inr v, steps3 @ [Constant v], g3))))"
| "calculate (UnaryExpr opr x) steps g =
     (case calculate x [] g of
        (Inl e, operand_steps, g1) \<Rightarrow> (Inl e, steps, g1)
      | (Inr operand, operand_steps, g1) \<Rightarrow>
          let steps1 = steps @ map (\<lambda>step. UnaryExpr opr step) (butlast operand_steps);
              steps2 = steps1 @ [UnaryExpr opr (Constant operand)] in
          (case un_function opr operand g1 of
             (Inl e, g2) \<Rightarrow> (Inl e, steps2, g2)
           | (Inr v, g2) \<Rightarrow> (Inr v, steps2 @ [Constant v], g2)))"
| "calculate (FunctionCallExpr f all_args) steps g =
     (case calculate_args f all_args [] all_args steps g of
        (Inl e, steps1, g1) \<Rightarrow> (Inl e, steps1, g1)
      | (Inr args, steps1, g1) \<Rightarrow>
          let steps2 = steps1 @ [FunctionCallExpr f (map Constant args)] in
          (case fn_function f args g1 of
             (Inl e, g2) \<Rightarrow> (Inl e, steps2, g2)
           | (Inr v, g2) \<Rightarrow> (Inr v, steps2 @ [Constant v], g2)))"
| "calculate (OtherExpression s) steps g = (Inl (TypeError ''Unknown expression type''), steps, g)"
| "calculate_args f all_args args [] steps g = (Inr args, steps, g)"
| "calculate_args f all_args args (arg # todo) steps g =
     (case calculate arg [] g of
        (Inl e, arg_steps, g1) \<Rightarrow> (Inl e, steps, g1)
      | (Inr a, arg_steps, g1) \<Rightarrow>
          calculate_args f all_args (args @ [a]) todo
            (steps @ map (\<lambda>step. FunctionCallExpr f
                            (map Constant args @ [step] @ drop (length args + 1) all_args))
                       (butlast arg_steps))
            g1)"

text \<open>
  The test of the first branch of \<^verbatim>\<open>calculate\<close>:
  \<^verbatim>\<open>isinstance(expr, Constant) or isinstance(expr, NamedConstant)\<close>.
\<close>

fun is_constant :: "('v, 'g) expr \<Rightarrow> bool" where
  "is_constant (Constant v) = True"
| "is_constant (NamedConstant name v) = True"
| "is_constant e = False"

text \<open>
  The default of the parameter \<open>steps\<close> is one list, created when the function is
  defined and shared by every call that omits the argument. The interpreter's state that
  \<^verbatim>\<open>calculate\<close> can read is that list and the random generator. A call passes a list
  (\<open>Some\<close>) or omits it (\<open>None\<close>); when it omits it, the list it appends to, and
  returns, is the shared one.
\<close>

record ('v, 'g) interpreter =
  default_steps :: "('v, 'g) expr list"
  generator :: 'g

definition calculate_call ::
  "('v, 'g) expr \<Rightarrow> ('v, 'g) expr list option \<Rightarrow> ('v, 'g) interpreter
     \<Rightarrow> (error + 'v \<times> ('v, 'g) expr list) \<times> ('v, 'g) interpreter" where
  "calculate_call e steps_arg w =
     (case steps_arg of
        Some steps \<Rightarrow>
          (case calculate e steps (generator w) of
             (Inl err, steps', g') \<Rightarrow> (Inl err, w\<lparr>generator := g'\<rparr>)
           | (Inr v, steps', g') \<Rightarrow> (Inr (v, steps'), w\<lparr>generator := g'\<rparr>))
      | None \<Rightarrow>
          (case calculate e (default_steps w) (generator w) of
             (Inl err, steps', g') \<Rightarrow> (Inl err, \<lparr>default_steps = steps', generator = g'\<rparr>)
           | (Inr v, steps', g') \<Rightarrow>
               (Inr (v, steps'), \<lparr>default_steps = steps', generator = g'\<rparr>)))"

section \<open>Processing a request on the server (server.py)\<close>

text \<open>
  The payload is pickled; the pickler is the host's. \<open>loads_expression\<close> is
  \<^verbatim>\<open>pickle.loads\<close> followed by the test \<^verbatim>\<open>isinstance(expr, Expression)\<close> (\<open>None\<close>
  when either fails), \<open>dumps_result\<close> and \<open>dumps_error\<close> are \<^verbatim>\<open>pickle.dumps\<close> on a
  result pair and on an exception, \<open>str_number\<close> is \<^verbatim>\<open>str\<close> on a number.
\<close>

record ('v, 'g) codec =
  loads_expression :: "byte list \<Rightarrow> ('v, 'g) expr option"
  dumps_result :: "'v \<Rightarrow> string list \<Rightarrow> byte list"
  dumps_error :: "error \<Rightarrow> byte list"
  str_number :: "'v \<Rightarrow> string"

definition data_to_expression ::
  "('v, 'g) codec \<Rightarrow> CalculatorHeader \<Rightarrow> error + ('v, 'g) expr" where
  "data_to_expression cd header =
     (case loads_expression cd (data header) of
        None \<Rightarrow> Inl (ValueError ''Received data is not an Expression'')
      | Some e \<Rightarrow> Inr e)"

definition from_result ::
  "('v, 'g) codec \<Rightarrow> int \<Rightarrow> 'v \<Rightarrow> string list \<Rightarrow> bool \<Rightarrow> int
     \<Rightarrow> error + (CalculatorHeader \<times> warning list)" where
  "from_result cd now result steps cache cc =
     from_response now (dumps_result cd result steps) STATUS_OK (steps \<noteq> []) cache cc"

definition from_error ::
  "('v, 'g) codec \<Rightarrow> int \<Rightarrow> error \<Rightarrow> int \<Rightarrow> bool \<Rightarrow> int
     \<Rightarrow> error + (CalculatorHeader \<times> warning list)" where
  "from_error cd now err st cache cc =
     from_response now (dumps_error cd err) st False cache cc"

definition CACHE_POLICY :: bool where
  "CACHE_POLICY = True"

definition CACHE_CONTROL :: int where
  "CACHE_CONTROL = 2 ^ 16 - 1"

text \<open>The list comprehension over the steps; the first exception ends it.\<close>

fun stringify_steps :: "('v \<Rightarrow> string) \<Rightarrow> ('v, 'g) expr list \<Rightarrow> error + string list" where
  "stringify_steps sh [] = Inr []"
| "stringify_steps sh (step # steps) =
     (case stringify sh step True of
        Inl e \<Rightarrow> Inl e
      | Inr x \<Rightarrow> (case stringify_steps sh steps of Inl e \<Rightarrow> Inl e | Inr xs \<Rightarrow> Inr (x # xs)))"

text \<open>
  \<^verbatim>\<open>process_request\<close> of server.py. The \<^verbatim>\<open>try\<close> block covers decoding and
  evaluation, and its handler answers every exception with
  \<^verbatim>\<open>STATUS_CLIENT_ERROR\<close>. What is raised after the block (by \<^verbatim>\<open>stringify\<close> or by
  a constructor) leaves the function as an exception.
\<close>

definition server_process_request ::
  "('v, 'g) codec \<Rightarrow> int \<Rightarrow> CalculatorHeader \<Rightarrow> 'g
     \<Rightarrow> (error + (CalculatorHeader \<times> warning list)) \<times> 'g" where
  "server_process_request cd now request g =
     (case (if is_request request then
              (case data_to_expression cd request of
                 Inl e \<Rightarrow> (Inl e, g)
               | Inr e \<Rightarrow>
                   (case calculate e [] g of
                      (Inl err, steps, g') \<Rightarrow> (Inl err, g')
                    | (Inr result, steps, g') \<Rightarrow> (Inr (result, steps), g')))
            else (Inl (TypeError ''Received a response instead of a request''), g)) of
        (Inl err, g') \<Rightarrow>
          (from_error cd now err STATUS_CLIENT_ERROR CACHE_POLICY CACHE_CONTROL, g')
      | (Inr (result, steps), g') \<Rightarrow>
          (if show_steps request then
             (case stringify_steps (str_number cd) steps of
                Inl e \<Rightarrow> Inl e
              | Inr strs \<Rightarrow> from_result cd now result strs CACHE_POLICY CACHE_CONTROL)
           else from_result cd now result [] CACHE_POLICY CACHE_CONTROL, g'))"

section \<open>The cache resolver (proxy.py)\<close>

text \<open>
  A remaining time is an integer or \<^verbatim>\<open>math.inf\<close> (for a cache control of
  \<^verbatim>\<open>INDEFINITE\<close>); \<^verbatim>\<open>math.inf - age\<close> is \<^verbatim>\<open>math.inf\<close>, which is positive.
\<close>

datatype seconds = Finite int | Infinite

definition INDEFINITE :: int where
  "INDEFINITE = MAX_CACHE_CONTROL"

definition time_remaining :: "int \<Rightarrow> int \<Rightarrow> seconds" where
  "time_remaining cc age = (if cc \<noteq> INDEFINITE then Finite (cc - age) else Infinite)"

fun positive :: "seconds \<Rightarrow> bool" where
  "positive (Finite n) = (n > 0)"
| "positive Infinite = True"

text \<open>
  What \<^verbatim>\<open>process_request\<close> of proxy.py reads from outside: the clock when it looks
  at a cached entry, whether the server refuses the connection, the bytes received in
  reply to the bytes sent, and the clock after the reply.
\<close>

record upstream =
  time_at_lookup :: int
  connection_refused :: bool
  reply :: "byte list \<Rightarrow> byte list"
  time_at_response :: int

type_synonym cache = "(byte list \<times> bool) \<rightharpoonup> CalculatorHeader"

type_synonym proxy_result =
  "CalculatorHeader \<times> seconds \<times> seconds \<times> bool \<times> bool \<times> bool"

text \<open>
  The result is the returned tuple (response, server time remaining, client time
  remaining, cache hit, was stale, cached) or the exception, then the cache after the
  call, then whether a connection to the server was attempted.
\<close>

definition proxy_process_request ::
  "CalculatorHeader \<Rightarrow> cache \<Rightarrow> upstream \<Rightarrow> (error + proxy_result) \<times> cache \<times> bool" where
  "proxy_process_request request cache up =
     (if \<not> is_request request
      then (Inl (TypeError ''Received a response instead of a request''), cache, False)
      else
        let key = (data request, show_steps request);
            in_cache = (cache key \<noteq> None \<and> cache_control request \<noteq> 0);
            entry = the (cache key);
            age0 = time_at_lookup up - unix_time_stamp entry;
            server0 = time_remaining (cache_control entry) age0;
            client0 = time_remaining (cache_control request) age0;
            fresh = (positive server0 \<and> positive client0);
            was_stale = (in_cache \<and> \<not> fresh)
        in
          if in_cache \<and> fresh
          then (Inr (entry, server0, client0, True, False, False), cache, False)
          else if connection_refused up
          then (Inl (CalculatorServerError ''Connection refused by server''), cache, True)
          else
            (case pack request of
               Inl e \<Rightarrow> (Inl e, cache, True)
             | Inr sent \<Rightarrow>
                 (case unpack (reply up sent) of
                    Inl e \<Rightarrow>
                      (Inl (CalculatorClientError ''Error while unpacking request''), cache, True)
                  | Inr (response, ws) \<Rightarrow>
                      if is_request response
                      then (Inl (TypeError ''Received a request instead of a response''),
                            cache, True)
                      else
                        let age = time_at_response up - unix_time_stamp response;
                            server = time_remaining (cache_control response) age;
                            client = time_remaining (cache_control request) age
                        in
                          if cache_result request \<and> cache_result response
                               \<and> positive server \<and> positive client
                          then (Inr (response, server, client, False, was_stale, True),
                                cache(key \<mapsto> response), True)
                          else (Inr (response, server, client, False, was_stale, False),
                                cache, True))))"

text \<open>
  The part of \<^verbatim>\<open>process_request\<close> below the cache lookup (the \<^verbatim>\<open>with socket\<close>
  block), as a function of \<^verbatim>\<open>was_stale\<close>; used to state what the function returns.
\<close>

definition forward_upstream ::
  "CalculatorHeader \<Rightarrow> cache \<Rightarrow> upstream \<Rightarrow> bool \<Rightarrow> (error + proxy_result) \<times> cache \<times> bool" where
  "forward_upstream request cache up was_stale =
     (if connection_refused up
      then (Inl (CalculatorServerError ''Connection refused by server''), cache, True)
      else
        (case pack request of
           Inl e \<Rightarrow> (Inl e, cache, True)
         | Inr sent \<Rightarrow>
             (case unpack (reply up sent) of
                Inl e \<Rightarrow>
                  (Inl (CalculatorClientError ''Error while unpacking request''), cache, True)
              | Inr (response, ws) \<Rightarrow>
                  if is_request response
                  then (Inl (TypeError ''Received a request instead of a response''),
                        cache, True)
                  else
                    let age = time_at_response up - unix_time_stamp response;
                        server = time_remaining (cache_control response) age;
                        client = time_remaining (cache_control request) age
                    in
                      if cache_result request \<and> cache_result response
                           \<and> positive server \<and> positive client
                      then (Inr (response, server, client, False, was_stale, True),
                            cache((data request, show_steps request) \<mapsto> response), True)
                      else (Inr (response, server, client, False, was_stale, False),
                            cache, True))))"

section \<open>Predefined operators and constants (calculator.py)\<close>

text \<open>
  Those of the predefined tables that the examples below use, on real numbers (the two
  named constants with the decimal digits Python prints for \<^verbatim>\<open>math.pi\<close> and
  \<^verbatim>\<open>math.e\<close>). The
  generator's state is the sequence of the values \<^verbatim>\<open>random.random()\<close> will return;
  \<^verbatim>\<open>random.uniform(a, b)\<close> is \<^verbatim>\<open>a + (b - a) * random()\<close>.
\<close>

definition BINARY_OPERATORS_ADD :: "(real, 'g) BinaryOperator" where
  "BINARY_OPERATORS_ADD = BinaryOperator ''+'' (\<lambda>a b g. (Inr (a + b), g)) LEFT"

definition BINARY_OPERATORS_DIV :: "(real, 'g) BinaryOperator" where
  "BINARY_OPERATORS_DIV =
     BinaryOperator ''/''
       (\<lambda>a b g. (if b = 0 then Inl ZeroDivisionError else Inr (a / b), g)) LEFT"

definition UNARY_OPERATORS_NEG :: "(real, 'g) UnaryOperator" where
  "UNARY_OPERATORS_NEG = UnaryOperator ''-'' (\<lambda>a g. (Inr (- a), g))"

definition FUNCTIONS_RAND :: "(real, real stream) Function" where
  "FUNCTIONS_RAND =
     Function ''rand''
       (\<lambda>args g. case args of
                    [a, b] \<Rightarrow> (Inr (a + (b - a) * shd g), stl g)
                  | _ \<Rightarrow> (Inl (TypeError ''uniform() takes two arguments''), g))"

definition NAMED_CONSTANTS_PI :: "(real, 'g) expr" where
  "NAMED_CONSTANTS_PI = NamedConstant ''PI'' 3.141592653589793"

definition NAMED_CONSTANTS_E :: "(real, 'g) expr" where
  "NAMED_CONSTANTS_E = NamedConstant ''E'' 2.718281828459045"

section \<open>Example expressions\<close>

text \<open>\<^verbatim>\<open>1 + 2\<close>, and \<^verbatim>\<open>rand(0, 1)\<close> with a generator whose next numbers are 1/4, 1/2, 1/2, ...\<close>

definition one_plus_two :: "(real, 'g) expr" where
  "one_plus_two = BinaryExpr (Constant 1) BINARY_OPERATORS_ADD (Constant 2)"

definition rand_0_1 :: "(real, real stream) expr" where
  "rand_0_1 = FunctionCallExpr FUNCTIONS_RAND [Constant 0, Constant 1]"

definition quarter_then_half :: "(real, real stream) interpreter" where
  "quarter_then_half = \<lparr>default_steps = [], generator = (1 / 4) ## sconst (1 / 2)\<rparr>"

text \<open>
  \<^verbatim>\<open>-(PI + E) + PI\<close> and \<^verbatim>\<open>1 / 0\<close>, built as the operators' \<^verbatim>\<open>__call__\<close> builds
  them.
\<close>

definition neg_sum_plus_pi :: "(real, 'g) expr" where
  "neg_sum_plus_pi =
     BinaryExpr
       (UnaryExpr UNARY_OPERATORS_NEG
          (BinaryExpr NAMED_CONSTANTS_PI BINARY_OPERATORS_ADD NAMED_CONSTANTS_E))
       BINARY_OPERATORS_ADD NAMED_CONSTANTS_PI"

definition one_by_zero :: "(real, 'g) expr" where
  "one_by_zero = BinaryExpr (Constant 1) BINARY_OPERATORS_DIV (Constant 0)"

text \<open>
  A request without payload, and two picklers: each decodes every payload to one
  expression (\<^verbatim>\<open>1 / 0\<close>, or a node of a class \<^verbatim>\<open>calculate\<close> does not know) and
  encodes every answer in no bytes.
\<close>

definition empty_request :: CalculatorHeader where
  "empty_request =
     \<lparr>unix_time_stamp = 0, total_length = 12, reserved = 0, cache_result = False,
      show_steps = False, is_request = True, status_code = 0, cache_control = 0, data = []\<rparr>"

definition codec_of :: "(real, unit) expr \<Rightarrow> (real, unit) codec" where
  "codec_of e =
     \<lparr>loads_expression = (\<lambda>bs. Some e), dumps_result = (\<lambda>v steps. []),
      dumps_error = (\<lambda>err. []), str_number = (\<lambda>v. [])\<rparr>"

text \<open>
  A cached response: sent at time 0, cacheable for 100 seconds. A request for the same
  payload that accepts an age of 200 seconds, and one that forces a reload. A server
  that unpacks what it is sent and answers a request with the bytes of the same
  response sent at time 50, and anything else with no bytes; the proxy's clock shows 50
  when it looks at the cache and 60 after the reply.
\<close>

definition cached_response :: CalculatorHeader where
  "cached_response =
     \<lparr>unix_time_stamp = 0, total_length = 12, reserved = 0, cache_result = True,
      show_steps = False, is_request = False, status_code = 200, cache_control = 100,
      data = []\<rparr>"

definition fresh_response :: CalculatorHeader where
  "fresh_response = cached_response\<lparr>unix_time_stamp := 50\<rparr>"

definition request_200 :: CalculatorHeader where
  "request_200 =
     \<lparr>unix_time_stamp = 40, total_length = 12, reserved = 0, cache_result = True,
      show_steps = False, is_request = True, status_code = 0, cache_control = 200,
      data = []\<rparr>"

definition request_reload :: CalculatorHeader where
  "request_reload = request_200\<lparr>cache_control := 0\<rparr>"

definition example_upstream :: upstream where
  "example_upstream =
     \<lparr>time_at_lookup = 50, connection_refused = False,
      reply = (\<lambda>sent. case unpack sent of
                         Inl e \<Rightarrow> []
                       | Inr (h, ws) \<Rightarrow>
                           if is_request h
                           then [0, 0, 0, 50, 0, 12, 16, 200, 0, 100, 0, 0] else []),
      time_at_response = 60\<rparr>"

definition example_cache :: cache where
  "example_cache = [([], False) \<mapsto> cached_response]"

text \<open>An entry for the same payload that is stale at the age of 50: cacheable for 30 seconds.\<close>

definition stale_response :: CalculatorHeader where
  "stale_response = cached_response\<lparr>cache_control := 30\<rparr>"

text \<open>The same entry and request with the cache control 65535 on both sides.\<close>

definition indefinite_response :: CalculatorHeader where
  "indefinite_response = cached_response\<lparr>cache_control := 65535\<rparr>"

definition request_indefinite :: CalculatorHeader where
  "request_indefinite = request_200\<lparr>cache_control := 65535\<rparr>"

section \<open>Properties\<close>

subsection \<open>Lemmas on the header codec\<close>

lemmas header_bounds = HEADER_MIN_LENGTH_def HEADER_MAX_LENGTH_def HEADER_MAX_DATA_LENGTH_def

lemma length_be_bytes: "length (be_bytes n x) = n"
  by (induction n arbitrary: x) auto

lemma be_bytes_2: "be_bytes 2 x = [word_of_int (x div 256 mod 256), word_of_int (x mod 256)]"
  by (simp add: numeral_2_eq_2)

lemma be_bytes_4:
  "be_bytes 4 x =
     [word_of_int (x div 256 div 256 div 256 mod 256), word_of_int (x div 256 div 256 mod 256),
      word_of_int (x div 256 mod 256), word_of_int (x mod 256)]"
  by (simp add: numeral_eq_Suc)

lemma be_int_snoc: "be_int (bs @ [b]) = be_int bs * 256 + uint b"
  by (simp add: be_int_def)

lemma be_int_be_bytes: "0 \<le> x \<Longrightarrow> x < 2 ^ (8 * n) \<Longrightarrow> be_int (be_bytes n x) = x"
proof (induction n arbitrary: x)
  case 0
  then show ?case by (simp add: be_int_def)
next
  case (Suc n)
  have "x < 2 ^ (8 * n) * 256"
    using Suc.prems(2) by (simp add: power_add mult.commute)
  then have lt: "x div 256 < 2 ^ (8 * n)"
    by arith
  have ge: "0 \<le> x div 256"
    using Suc.prems(1) by simp
  have b: "uint (word_of_int (x mod 256) :: byte) = x mod 256"
    by (simp add: uint_word_of_int take_bit_eq_mod)
  show ?case
    using Suc.IH[OF ge lt] b by (simp add: be_int_snoc)
qed

lemma be_int_bounds: "0 \<le> be_int bs \<and> be_int bs < 2 ^ (8 * length bs)"
proof (induction bs rule: rev_induct)
  case Nil
  then show ?case by (simp add: be_int_def)
next
  case (snoc b bs)
  have "uint b < 256"
    using uint_bounded[of b] by simp
  moreover have "0 \<le> uint b"
    by simp
  ultimately show ?case
    using snoc by (simp add: be_int_snoc power_add)
qed

lemma be_int_two_bytes: "length bs = 2 \<Longrightarrow> 0 \<le> be_int bs \<and> be_int bs < 65536"
  using be_int_bounds[of bs] by simp

text \<open>The total length that \<open>unpack\<close> reads from bytes 4 and 5 is below \<open>2 ^ 16\<close>.\<close>

lemma declared_length_bound:
  "12 \<le> length bs \<Longrightarrow> be_int (take 2 (drop 4 bs)) < 65536"
  by (rule be_int_two_bytes[THEN conjunct2]) simp

lemma unpack_init:
  "12 \<le> length bs \<Longrightarrow>
   unpack bs =
     (case unpack_flags (be_int (take 2 (drop 6 bs))) of
        (r, c, s, q, st) \<Rightarrow>
          CalculatorHeader_init (be_int (take 4 bs)) (Some (be_int (take 2 (drop 4 bs))))
            r c s q st (be_int (take 2 (drop 8 bs))) (drop 12 bs))"
  by (simp add: unpack_def struct_unpack_def HEADER_MIN_LENGTH_def drop_take min_def)

text \<open>The constructor in one equation: its two failures, the fields and the warnings.\<close>

lemma init_eq:
  "CalculatorHeader_init ts tlen r c s q st cc d =
     (let total = (case tlen of None \<Rightarrow> 12 + int (length d) | Some n \<Rightarrow> n) in
      if total < 12 \<or> 65536 < total then Inl (ValueError ''Invalid total length'')
      else if 65524 < length d then Inl (ValueError ''Invalid data length'')
      else Inr (\<lparr>unix_time_stamp = ts, total_length = total, reserved = r,
                  cache_result = (c \<and> (q \<or> cc \<noteq> 0)), show_steps = s, is_request = q,
                  status_code = st, cache_control = (if c then cc else 0), data = d\<rparr>,
                init_warnings total (length d) r c q st cc))"
  by (cases tlen; cases c; cases q; cases "cc = 0")
    (simp_all add: CalculatorHeader_init_def init_warnings_def Let_def header_bounds not_le)

lemma init_fails_iff:
  "isl (CalculatorHeader_init ts tlen r c s q st cc d) =
     (let total = (case tlen of None \<Rightarrow> 12 + int (length d) | Some n \<Rightarrow> n)
      in total < 12 \<or> 65536 < total \<or> 65524 < length d)"
  by (simp add: init_eq Let_def)

lemma init_Inr:
  assumes "CalculatorHeader_init ts tlen r c s q st cc d = Inr (h, ws)"
  shows "h = \<lparr>unix_time_stamp = ts,
               total_length = (case tlen of None \<Rightarrow> 12 + int (length d) | Some n \<Rightarrow> n),
               reserved = r, cache_result = (c \<and> (q \<or> cc \<noteq> 0)), show_steps = s,
               is_request = q, status_code = st, cache_control = (if c then cc else 0),
               data = d\<rparr>"
    and "ws = init_warnings (case tlen of None \<Rightarrow> 12 + int (length d) | Some n \<Rightarrow> n)
               (length d) r c q st cc"
  using assms by (simp_all add: init_eq Let_def split: if_splits)

lemma LengthMismatch_warned:
  "(LengthMismatch \<in> set (init_warnings tot n r c q st cc)) = (tot \<noteq> 12 + int n)"
  by (simp add: init_warnings_def)

lemma RequestStatusNotZero_warned:
  "(RequestStatusNotZero \<in> set (init_warnings tot n r c q st cc)) = (q \<and> st \<noteq> 0)"
  by (simp add: init_warnings_def)

lemma CacheControlIgnored_warned:
  "(CacheControlIgnored \<in> set (init_warnings tot n r c q st cc)) = (cc \<noteq> 0 \<and> \<not> c)"
  by (simp add: init_warnings_def)

lemma ResponseNotCached_warned:
  "(ResponseNotCached \<in> set (init_warnings tot n r c q st cc)) = (\<not> q \<and> cc = 0 \<and> c)"
  by (simp add: init_warnings_def)

lemmas warned =
  LengthMismatch_warned RequestStatusNotZero_warned CacheControlIgnored_warned
  ResponseNotCached_warned

lemma flags_status:
  "(push_bit 13 (take_bit 3 r) OR push_bit 12 (of_bool c) OR push_bit 11 (of_bool s)
      OR push_bit 10 (of_bool q) OR take_bit 10 st) AND (push_bit 10 1 - 1)
     = take_bit 10 (st :: int)"
proof -
  have m: "push_bit 10 (1 :: int) - 1 = mask 10"
    by (simp add: mask_eq_exp_minus_1 push_bit_of_1)
  show ?thesis
    unfolding m by (rule bit_eqI) (auto simp add: bit_simps)
qed

lemma flags_reserved:
  "drop_bit 13 (push_bit 13 (take_bit 3 r) OR push_bit 12 (of_bool c)
      OR push_bit 11 (of_bool s) OR push_bit 10 (of_bool q) OR take_bit 10 st)
     AND (push_bit 3 1 - 1) = take_bit 3 (r :: int)"
proof -
  have m: "push_bit 3 (1 :: int) - 1 = mask 3"
    by (simp add: mask_eq_exp_minus_1 push_bit_of_1)
  show ?thesis
    unfolding m by (rule bit_eqI) (auto simp add: bit_simps)
qed

lemma flags_bit:
  "((push_bit 13 (take_bit 3 r) OR push_bit 12 (of_bool c) OR push_bit 11 (of_bool s)
      OR push_bit 10 (of_bool q) OR take_bit 10 (st :: int)) AND push_bit 10 1 \<noteq> 0) = q"
  "((push_bit 13 (take_bit 3 r) OR push_bit 12 (of_bool c) OR push_bit 11 (of_bool s)
      OR push_bit 10 (of_bool q) OR take_bit 10 (st :: int)) AND push_bit 11 1 \<noteq> 0) = s"
  "((push_bit 13 (take_bit 3 r) OR push_bit 12 (of_bool c) OR push_bit 11 (of_bool s)
      OR push_bit 10 (of_bool q) OR take_bit 10 (st :: int)) AND push_bit 12 1 \<noteq> 0) = c"
  by (simp_all only: push_bit_of_1 and_exp_eq_0_iff_not_bit not_not) (simp_all add: bit_simps)

lemma flags_16_bits:
  "take_bit 16 (push_bit 13 (take_bit 3 r) OR push_bit 12 (of_bool c)
      OR push_bit 11 (of_bool s) OR push_bit 10 (of_bool q) OR take_bit 10 (st :: int))
   = push_bit 13 (take_bit 3 r) OR push_bit 12 (of_bool c)
      OR push_bit 11 (of_bool s) OR push_bit 10 (of_bool q) OR take_bit 10 st"
  by (rule bit_eqI) (auto simp add: bit_simps)

text \<open>
  For a reserved value of 3 bits and a status code of 10 bits, the packed flags fit the
  16-bit field and are unpacked to what was packed.
\<close>

lemma unpack_pack_flags:
  assumes "0 \<le> r" "r < 8" "0 \<le> st" "st < 1024"
  shows "unpack_flags (pack_flags r c s q st) = (r, c, s, q, st)"
    and "0 \<le> pack_flags r c s q st" and "pack_flags r c s q st < 65536"
proof -
  have tb: "take_bit 3 r = r" "take_bit 10 st = st"
    using assms by (simp_all add: take_bit_int_eq_self)
  have "unpack_flags (pack_flags (take_bit 3 r) c s q (take_bit 10 st))
     = (take_bit 3 r, c, s, q, take_bit 10 st)"
    unfolding unpack_flags_def pack_flags_def Let_def
    by (simp only: flags_status flags_reserved flags_bit)
  then show "unpack_flags (pack_flags r c s q st) = (r, c, s, q, st)"
    by (simp add: tb)
  have "take_bit 16 (pack_flags (take_bit 3 r) c s q (take_bit 10 st))
      = pack_flags (take_bit 3 r) c s q (take_bit 10 st)"
    unfolding pack_flags_def by (rule flags_16_bits)
  then have f: "take_bit 16 (pack_flags r c s q st) = pack_flags r c s q st"
    by (simp add: tb)
  show "0 \<le> pack_flags r c s q st"
    using take_bit_nonnegative[of 16 "pack_flags r c s q st"] by (simp only: f)
  show "pack_flags r c s q st < 65536"
    using take_bit_int_less_exp[of 16 "pack_flags r c s q st"] by (simp only: f) simp
qed

text \<open>
  The round trip, where it holds: a header that construction accepts, whose packed
  numbers are in the ranges of their fields (32 bits for the time stamp, 3 for the
  reserved bits, 10 for the status code, 16 for the cache control) and whose total length
  is below \<open>2 ^ 16\<close>, is packed, and the bytes are unpacked to that header.
\<close>

lemma unpack_pack:
  assumes init: "CalculatorHeader_init ts tlen r c s q st cc d = Inr (h, ws)"
    and ts: "0 \<le> ts" "ts < 2 ^ 32"
    and r: "0 \<le> r" "r < 8"
    and st: "0 \<le> st" "st < 1024"
    and cc: "0 \<le> cc" "cc < 65536"
    and len: "total_length h < 65536"
  shows "\<exists>bs ws'. pack h = Inr bs \<and> unpack bs = Inr (h, ws')"
proof -
  define tot where "tot = (case tlen of None \<Rightarrow> 12 + int (length d) | Some n \<Rightarrow> n)"
  define c' where "c' = (c \<and> (q \<or> cc \<noteq> 0))"
  define cc' where "cc' = (if c then cc else 0)"
  define fl where "fl = pack_flags r c' s q st"
  have h: "h = \<lparr>unix_time_stamp = ts, total_length = tot, reserved = r, cache_result = c',
      show_steps = s, is_request = q, status_code = st, cache_control = cc', data = d\<rparr>"
    using init_Inr(1)[OF init] by (simp add: tot_def c'_def cc'_def)
  have ok: "\<not> isl (CalculatorHeader_init ts tlen r c s q st cc d)"
    by (simp add: init)
  then have tot: "12 \<le> tot" "tot < 65536" and d: "length d \<le> 65524"
    using len by (simp_all add: init_fails_iff Let_def tot_def[symmetric] h)
  have cc': "0 \<le> cc'" "cc' < 65536"
    using cc by (simp_all add: cc'_def)
  have fl: "unpack_flags fl = (r, c', s, q, st)" "0 \<le> fl" "fl < 65536"
    using unpack_pack_flags[OF r st, of c' s q] by (simp_all add: fl_def)
  define bs where
    "bs = be_bytes 4 ts @ be_bytes 2 tot @ be_bytes 2 fl @ be_bytes 2 cc' @ [0, 0] @ d"
  have p: "pack h = Inr bs"
    using ts tot fl(2,3) cc'
    by (simp add: pack_def struct_pack_def pack_uint_def h fl_def[symmetric] bs_def)
  have l: "12 \<le> length bs"
    by (simp add: bs_def length_be_bytes)
  have parts: "take 4 bs = be_bytes 4 ts" "take 2 (drop 4 bs) = be_bytes 2 tot"
    "take 2 (drop 6 bs) = be_bytes 2 fl" "take 2 (drop 8 bs) = be_bytes 2 cc'"
    "drop 12 bs = d"
    by (simp_all add: bs_def length_be_bytes)
  have ints: "be_int (be_bytes 4 ts) = ts" "be_int (be_bytes 2 tot) = tot"
    "be_int (be_bytes 2 fl) = fl" "be_int (be_bytes 2 cc') = cc'"
    using ts tot fl(2,3) cc' by (simp_all add: be_int_be_bytes)
  have u: "unpack bs = CalculatorHeader_init ts (Some tot) r c' s q st cc' d"
    by (simp add: unpack_init[OF l] parts ints fl(1))
  have "\<exists>ws'. CalculatorHeader_init ts (Some tot) r c' s q st cc' d = Inr (h, ws')"
    using tot d by (auto simp: init_eq h c'_def cc'_def)
  then show ?thesis
    using p u by auto
qed

subsection \<open>Claims on the header codec\<close>



text \<open>
  Claim C9, as stated: every constructed header has status code 0 when it is a request.
  The constructor only warns: a request constructed with status code 200 keeps it.
\<close>

theorem C9_request_status_counterexample:
  "CalculatorHeader_init 0 None 0 False False True 200 0 [] =
     Inr (\<lparr>unix_time_stamp = 0, total_length = 12, reserved = 0, cache_result = False,
           show_steps = False, is_request = True, status_code = 200, cache_control = 0,
           data = []\<rparr>, [RequestStatusNotZero])"
  by (simp add: CalculatorHeader_init_def header_bounds)

text \<open>
  Claim C9, amended. Construction never changes the status code nor the request flag:
  the header has the status code it was given, with the warning
  \<open>RequestStatusNotZero\<close> exactly when it is a request with a nonzero status code. So a
  constructed request has status code 0 exactly when 0 was given, as \<open>from_request\<close>
  does.
\<close>

theorem C9_status_code_kept:
  "(CalculatorHeader_init ts tlen r c s q st cc d = Inr (h, ws) \<longrightarrow>
      status_code h = st \<and> is_request h = q
      \<and> (RequestStatusNotZero \<in> set ws) = (q \<and> st \<noteq> 0))
   \<and> (from_request now d s c cc = Inr (h', ws') \<longrightarrow> is_request h' \<and> status_code h' = 0)"
proof -
  have "CalculatorHeader_init ts tlen r c s q st cc d = Inr (h, ws) \<longrightarrow>
      status_code h = st \<and> is_request h = q
      \<and> (RequestStatusNotZero \<in> set ws) = (q \<and> st \<noteq> 0)"
  proof
    assume a: "CalculatorHeader_init ts tlen r c s q st cc d = Inr (h, ws)"
    show "status_code h = st \<and> is_request h = q
      \<and> (RequestStatusNotZero \<in> set ws) = (q \<and> st \<noteq> 0)"
      unfolding init_Inr[OF a] by (simp add: warned)
  qed
  moreover have "from_request now d s c cc = Inr (h', ws') \<longrightarrow>
      is_request h' \<and> status_code h' = 0"
  proof
    assume "from_request now d s c cc = Inr (h', ws')"
    then have a: "CalculatorHeader_init now None 0 c s True 0 cc d = Inr (h', ws')"
      by (simp add: from_request_def)
    show "is_request h' \<and> status_code h' = 0"
      unfolding init_Inr(1)[OF a] by simp
  qed
  ultimately show ?thesis
    by simp
qed

theorem C9_status_code_kept_witness:
  "CalculatorHeader_init 0 None 0 False False True 404 0 [] =
     Inr (\<lparr>unix_time_stamp = 0, total_length = 12, reserved = 0, cache_result = False,
           show_steps = False, is_request = True, status_code = 404, cache_control = 0,
           data = []\<rparr>, [RequestStatusNotZero])
   \<and> from_request 5 [] False False 0 =
     Inr (\<lparr>unix_time_stamp = 5, total_length = 12, reserved = 0, cache_result = False,
           show_steps = False, is_request = True, status_code = 0, cache_control = 0,
           data = []\<rparr>, [])"
  using C9_status_code_kept[of 0 None 0 False False True 404 0 "[]" _ _ 5]
  by (simp add: from_request_def CalculatorHeader_init_def header_bounds)

text \<open>
  Claim C6, as stated: \<open>unpack\<close> fails exactly when fewer than 12 bytes are given. Twelve
  zero bytes declare the total length 0, which the constructor rejects.
\<close>

theorem C6_unpack_counterexample:
  "length (replicate 12 (0 :: byte)) = 12
   \<and> unpack (replicate 12 0) = Inl (ValueError ''Invalid total length'')"
  by (simp add: unpack_def struct_unpack_def be_int_def unpack_flags_def
      CalculatorHeader_init_def header_bounds numeral_eq_Suc)

text \<open>
  Claim C6, amended. \<open>unpack\<close> fails exactly when fewer than 12 bytes are given, or the
  declared total length (bytes 4 and 5) is below 12, or more than 65524 bytes follow the
  12-byte prefix. In every other case it succeeds, whether or not the declared length is
  that of the bytes given: the header carries the bytes after the prefix and the declared
  length, and the warning \<open>LengthMismatch\<close> is issued exactly when the two differ.
\<close>

theorem C6_unpack_outcome:
  "isl (unpack bs) =
     (length bs < 12 \<or> be_int (take 2 (drop 4 bs)) < 12 \<or> 65536 < length bs)
   \<and> (unpack bs = Inr (h, ws) \<longrightarrow>
        data h = drop 12 bs
        \<and> total_length h = be_int (take 2 (drop 4 bs))
        \<and> (LengthMismatch \<in> set ws) = (total_length h \<noteq> int (length bs)))"
proof (cases "length bs < 12")
  case True
  then show ?thesis
    by (simp add: unpack_def HEADER_MIN_LENGTH_def)
next
  case False
  then have len: "12 \<le> length bs"
    by simp
  obtain r c s q st where fl: "unpack_flags (be_int (take 2 (drop 6 bs))) = (r, c, s, q, st)"
    by (metis prod_cases5)
  have u: "unpack bs =
      CalculatorHeader_init (be_int (take 4 bs)) (Some (be_int (take 2 (drop 4 bs))))
        r c s q st (be_int (take 2 (drop 8 bs))) (drop 12 bs)"
    using unpack_init[OF len] fl by simp
  have fails: "isl (unpack bs) = (be_int (take 2 (drop 4 bs)) < 12 \<or> 65536 < length bs)"
    using declared_length_bound[OF len] len
    by (simp add: u init_fails_iff) linarith
  have fields: "unpack bs = Inr (h, ws) \<longrightarrow>
        data h = drop 12 bs
        \<and> total_length h = be_int (take 2 (drop 4 bs))
        \<and> (LengthMismatch \<in> set ws) = (total_length h \<noteq> int (length bs))"
  proof
    assume "unpack bs = Inr (h, ws)"
    then have a: "CalculatorHeader_init (be_int (take 4 bs))
        (Some (be_int (take 2 (drop 4 bs)))) r c s q st (be_int (take 2 (drop 8 bs)))
        (drop 12 bs) = Inr (h, ws)"
      by (simp add: u)
    have "12 + int (length bs - 12) = int (length bs)"
      using len by simp
    then show "data h = drop 12 bs
        \<and> total_length h = be_int (take 2 (drop 4 bs))
        \<and> (LengthMismatch \<in> set ws) = (total_length h \<noteq> int (length bs))"
      unfolding init_Inr[OF a] by (simp add: warned)
  qed
  show ?thesis
    using fails fields False by simp
qed

theorem C6_unpack_outcome_witness:
  "unpack [0, 0, 0, 0, 0, 12, 0, 0, 0, 0, 0, 0, 7] =
     Inr (\<lparr>unix_time_stamp = 0, total_length = 12, reserved = 0, cache_result = False,
           show_steps = False, is_request = False, status_code = 0, cache_control = 0,
           data = [7]\<rparr>, [LengthMismatch])
   \<and> \<not> isl (unpack [0, 0, 0, 0, 0, 12, 0, 0, 0, 0, 0, 0, 7])"
  using C6_unpack_outcome[of "[0, 0, 0, 0, 0, 12, 0, 0, 0, 0, 0, 0, 7]"]
  by (simp add: unpack_def struct_unpack_def be_int_def unpack_flags_def
      CalculatorHeader_init_def header_bounds)

text \<open>
  Claim C1: unpacking the bytes of a packed header gives the header back, for every
  header that construction accepts. The constructor accepts a total length of
  \<open>2 ^ 16\<close> (\<open>HEADER_MAX_LENGTH\<close>), which the 16-bit field cannot hold: for a request
  built from 65524 bytes of data, construction succeeds without a warning, and \<open>pack\<close>
  raises \<^verbatim>\<open>struct.error\<close>, so there are no bytes to unpack. Below that length
  the round trip holds (lemma \<open>unpack_pack\<close>).
\<close>

theorem C1_pack_fails_at_max_length:
  "(case from_request 0 (replicate 65524 0) False False 0 of
      Inl e \<Rightarrow> False
    | Inr (h, ws) \<Rightarrow> ws = [] \<and> total_length h = 65536 \<and> pack h = Inl StructError)"
  by (simp add: from_request_def CalculatorHeader_init_def header_bounds pack_def
      struct_pack_def pack_uint_def)


subsection \<open>Lemmas on the evaluator\<close>

text \<open>
  What a call appends does not depend on what the list holds: the list given is a
  prefix of the list returned, and the rest is what the call appends to an empty list.
\<close>

lemma calculate_args_frame:
  "calculate_args f all_args args todo (pre @ steps) g =
     (case calculate_args f all_args args todo steps g of
        (r, new, g') \<Rightarrow> (r, pre @ new, g'))"
proof (induction todo arbitrary: args steps g)
  case Nil
  show ?case by simp
next
  case (Cons a todo)
  show ?case
    by (simp add: Cons.IH split: prod.splits sum.splits)
qed

lemma calculate_frame:
  "calculate e (pre @ steps) g =
     (case calculate e steps g of (r, new, g') \<Rightarrow> (r, pre @ new, g'))"
  by (cases e) (simp_all add: calculate_args_frame Let_def split: prod.splits sum.splits)

lemma calculate_from_empty:
  "calculate e steps g =
     (case calculate e [] g of (r, new, g') \<Rightarrow> (r, steps @ new, g'))"
  using calculate_frame[of e steps "[]" g] by simp

lemma calculate_last_step:
  "\<not> is_constant e \<Longrightarrow> calculate e steps g = (Inr v, steps', g') \<Longrightarrow>
     steps' \<noteq> [] \<and> last steps' = Constant v"
  by (cases e) (auto simp: Let_def split: prod.splits sum.splits)

lemma calculate_constant:
  "is_constant e \<Longrightarrow> snd (calculate e steps g) = (steps, g)"
  by (cases e) simp_all

subsection \<open>Claims on the evaluator\<close>

text \<open>
  Claim C4, as stated: for every expression tree the returned step sequence is not
  empty and ends with the constant of the returned value. A tree that is one
  \<open>Constant\<close> is evaluated to its value with no step at all.
\<close>

theorem C4_single_leaf_counterexample:
  "calculate (Constant (1 :: int)) [] () = (Inr 1, [], ())"
  by simp

text \<open>
  Claim C4, amended. For every expression tree whose root is a binary, unary or function
  call node (not a \<open>Constant\<close> or \<open>NamedConstant\<close>) and whose evaluation returns, the
  returned step sequence is not empty and its last element is the constant of the
  returned value. For a tree that is a single \<open>Constant\<close> or \<open>NamedConstant\<close> the call
  appends nothing: from an empty list the returned step sequence is empty.
\<close>

theorem C4_last_step_is_result:
  "(\<not> is_constant e \<and> calculate e steps g = (Inr v, steps', g') \<longrightarrow>
      steps' \<noteq> [] \<and> last steps' = Constant v)
   \<and> (is_constant e \<longrightarrow> fst (snd (calculate e [] g)) = [])"
  using calculate_last_step[of e steps g v steps' g'] calculate_constant[of e "[]" g]
  by simp

theorem C4_last_step_is_result_witness:
  "\<not> is_constant (one_plus_two :: (real, unit) expr)
   \<and> calculate one_plus_two [] () = (Inr 3, [one_plus_two, Constant 3], ())
   \<and> last [one_plus_two :: (real, unit) expr, Constant 3] = Constant 3
   \<and> is_constant (Constant 1 :: (real, unit) expr)
   \<and> fst (snd (calculate (Constant 1 :: (real, unit) expr) [] ())) = []"
  using C4_last_step_is_result[of one_plus_two "[]" "()" 3 "[one_plus_two, Constant 3]" "()"]
    C4_last_step_is_result[of "Constant 1 :: (real, unit) expr" "[]" "()"]
  by (simp add: one_plus_two_def BINARY_OPERATORS_ADD_def)

text \<open>
  Claim C10, as stated, ends: calls that pass a fresh empty list always return equal
  results for equal inputs. The expression \<^verbatim>\<open>rand(0, 1)\<close> evaluated twice in a row,
  each time with a fresh empty list, returns 1/4 and then 1/2 when these are the next
  two numbers of the random generator.
\<close>

theorem C10_fresh_list_counterexample:
  "fst (calculate_call rand_0_1 (Some []) quarter_then_half)
     = Inr (1 / 4, [rand_0_1, Constant (1 / 4)])
   \<and> fst (calculate_call rand_0_1 (Some [])
            (snd (calculate_call rand_0_1 (Some []) quarter_then_half)))
     = Inr (1 / 2, [rand_0_1, Constant (1 / 2)])"
  by (simp add: calculate_call_def rand_0_1_def quarter_then_half_def FUNCTIONS_RAND_def)

text \<open>
  Claim C10, amended. When the argument \<open>steps\<close> is omitted, the calls share one list:
  of two successive calls on the same expression that is not a \<open>Constant\<close> or
  \<open>NamedConstant\<close>, if both return, the second returns a longer list, of which the
  list returned by the first is a prefix. A call that passes a fresh empty list leaves
  the shared list as it is, and its result depends on the expression and on the state of
  the random generator only: two such calls return equal results when the generator is in
  the same state (and may differ otherwise, for an expression that calls \<^verbatim>\<open>rand\<close>).
\<close>

theorem C10_shared_default_steps:
  "(\<not> is_constant e \<and> calculate_call e None w = (Inr (v1, s1), w1)
      \<and> calculate_call e None w1 = (Inr (v2, s2), w2) \<longrightarrow>
        length s1 < length s2 \<and> take (length s1) s2 = s1)
   \<and> (generator w = generator w' \<longrightarrow>
        fst (calculate_call e (Some []) w) = fst (calculate_call e (Some []) w'))
   \<and> default_steps (snd (calculate_call e (Some []) w)) = default_steps w"
proof -
  have shared: "length s1 < length s2 \<and> take (length s1) s2 = s1"
    if leaf: "\<not> is_constant e"
      and c1: "calculate_call e None w = (Inr (v1, s1), w1)"
      and c2: "calculate_call e None w1 = (Inr (v2, s2), w2)"
  proof -
    obtain g1 where w1: "default_steps w1 = s1" "generator w1 = g1"
      using c1 by (auto simp: calculate_call_def split: prod.splits sum.splits)
    obtain g2 where r2: "calculate e s1 g1 = (Inr v2, s2, g2)"
      using c2 w1 by (auto simp: calculate_call_def split: prod.splits sum.splits)
    obtain r new g' where n: "calculate e [] g1 = (r, new, g')"
      by (cases "calculate e [] g1") auto
    have eq: "r = Inr v2" "s2 = s1 @ new"
      using r2 n calculate_from_empty[of e s1 g1] by simp_all
    have "new \<noteq> []"
      using calculate_last_step[OF leaf, of "[]" g1 v2 new g'] n eq by simp
    then show ?thesis
      using eq by simp
  qed
  have fresh: "fst (calculate_call e (Some []) w) = fst (calculate_call e (Some []) w')"
    if "generator w = generator w'"
    using that by (simp add: calculate_call_def split: prod.splits sum.splits)
  have kept: "default_steps (snd (calculate_call e (Some []) w)) = default_steps w"
    by (simp add: calculate_call_def split: prod.splits sum.splits)
  show ?thesis
    using shared fresh kept by blast
qed

theorem C10_shared_default_steps_witness:
  "\<not> is_constant (one_plus_two :: (real, unit) expr)
   \<and> calculate_call one_plus_two None \<lparr>default_steps = [], generator = ()\<rparr>
       = (Inr (3, [one_plus_two, Constant 3]),
          \<lparr>default_steps = [one_plus_two, Constant 3], generator = ()\<rparr>)
   \<and> calculate_call one_plus_two None
         \<lparr>default_steps = [one_plus_two, Constant 3], generator = ()\<rparr>
       = (Inr (3, [one_plus_two, Constant 3, one_plus_two, Constant 3]),
          \<lparr>default_steps = [one_plus_two, Constant 3, one_plus_two, Constant 3],
            generator = ()\<rparr>)
   \<and> fst (calculate_call one_plus_two (Some [])
            \<lparr>default_steps = [one_plus_two, Constant 3], generator = ()\<rparr>)
       = Inr (3, [one_plus_two, Constant 3])"
  using C10_shared_default_steps[of one_plus_two
      "\<lparr>default_steps = [], generator = ()\<rparr>" 3 "[one_plus_two, Constant 3]"
      "\<lparr>default_steps = [one_plus_two, Constant 3], generator = ()\<rparr>" 3
      "[one_plus_two, Constant 3, one_plus_two, Constant 3]"
      "\<lparr>default_steps = [one_plus_two, Constant 3, one_plus_two, Constant 3],
        generator = ()\<rparr>"
      "\<lparr>default_steps = [one_plus_two, Constant 3], generator = ()\<rparr>"]
  by (simp add: calculate_call_def one_plus_two_def BINARY_OPERATORS_ADD_def)


subsection \<open>Claims on stringify and on the server\<close>

lemmas example_defs = neg_sum_plus_pi_def NAMED_CONSTANTS_PI_def NAMED_CONSTANTS_E_def
  UNARY_OPERATORS_NEG_def BINARY_OPERATORS_ADD_def

text \<open>
  Claim C7: the bracket pass applied twice gives what it gives applied once. On the
  rendering of \<^verbatim>\<open>-(PI + E) + PI\<close> with brackets, the pass removes the doubled pair
  and then compares the position of the last bracket, taken before the removal, with the
  length after it: the outer pair stays. A second pass removes that pair, so the second
  pass changes the result of the first.
\<close>

theorem C7_bracket_pass_not_idempotent:
  "str_brackets sh neg_sum_plus_pi = ''(-((PI + E)) + PI)''
   \<and> stringify sh neg_sum_plus_pi True = Inr ''(-(PI + E) + PI)''
   \<and> remove_unnecessary_brackets ''(-(PI + E) + PI)'' = Inr ''-(PI + E) + PI''"
  by (simp add: stringify_def remove_unnecessary_brackets_def remove_pair_def slice_def
      example_defs)

text \<open>What the handler of the \<^verbatim>\<open>try\<close> block returns.\<close>

lemma server_error_response:
  assumes "is_request request" "loads_expression cd (data request) = Some e"
    "calculate e [] g = (Inl err, steps, g')"
  shows "server_process_request cd now request g =
     (from_error cd now err STATUS_CLIENT_ERROR CACHE_POLICY CACHE_CONTROL, g')"
  using assms by (simp add: server_process_request_def data_to_expression_def)

lemma from_error_status:
  "from_error cd now err st c cc = Inr (h, ws) \<Longrightarrow> status_code h = st \<and> \<not> is_request h"
  unfolding from_error_def from_response_def by (drule init_Inr(1)) simp

lemma from_error_fails_iff:
  "isl (from_error cd now err st c cc) = (65524 < length (dumps_error cd err))"
  by (simp add: from_error_def from_response_def init_fails_iff)

text \<open>
  Claim C8, amended. When a request is processed, every exception of the evaluation, an
  arithmetic failure and a node of unknown kind alike, is answered by
  \<^verbatim>\<open>from_error\<close> with the status code 400: the response, when its construction
  succeeds (the pickled exception is at most 65524 bytes long), has status code 400. No
  exception of the evaluation is answered with a 5xx code.
\<close>

theorem C8_evaluation_errors_are_client_errors:
  "is_request request \<and> loads_expression cd (data request) = Some e
     \<and> calculate e [] g = (Inl err, steps, g') \<longrightarrow>
       server_process_request cd now request g
         = (from_error cd now err STATUS_CLIENT_ERROR CACHE_POLICY CACHE_CONTROL, g')
       \<and> isl (fst (server_process_request cd now request g))
           = (65524 < length (dumps_error cd err))
       \<and> (fst (server_process_request cd now request g) = Inr (h, ws) \<longrightarrow>
            status_code h = 400 \<and> \<not> is_request h)"
proof
  assume a: "is_request request \<and> loads_expression cd (data request) = Some e
     \<and> calculate e [] g = (Inl err, steps, g')"
  then have r: "server_process_request cd now request g
         = (from_error cd now err STATUS_CLIENT_ERROR CACHE_POLICY CACHE_CONTROL, g')"
    using server_error_response[of request cd e g err steps g' now] by simp
  show "server_process_request cd now request g
         = (from_error cd now err STATUS_CLIENT_ERROR CACHE_POLICY CACHE_CONTROL, g')
       \<and> isl (fst (server_process_request cd now request g))
           = (65524 < length (dumps_error cd err))
       \<and> (fst (server_process_request cd now request g) = Inr (h, ws) \<longrightarrow>
            status_code h = 400 \<and> \<not> is_request h)"
    using from_error_status[of cd now err STATUS_CLIENT_ERROR CACHE_POLICY CACHE_CONTROL h ws]
    by (simp add: r from_error_fails_iff STATUS_CLIENT_ERROR_def)
qed

text \<open>
  Claim C8, as stated: an exception of the evaluation is answered with a 4xx code when
  malformed input caused it and with a 5xx code when it is internal, and the exception
  for a node of unknown kind is not answered with a 4xx code. A request whose payload
  decodes to a node of unknown kind is answered with status code 400.
\<close>

lemmas server_eval =
  server_process_request_def data_to_expression_def codec_of_def empty_request_def
  from_error_def from_response_def CalculatorHeader_init_def header_bounds
  STATUS_CLIENT_ERROR_def CACHE_POLICY_def CACHE_CONTROL_def 

theorem C8_unknown_node_counterexample:
  "calculate (OtherExpression ''Matrix'' :: (real, unit) expr) [] ()
     = (Inl (TypeError ''Unknown expression type''), [], ())
   \<and> server_process_request (codec_of (OtherExpression ''Matrix'')) 0 empty_request ()
     = (Inr (\<lparr>unix_time_stamp = 0, total_length = 12, reserved = 0, cache_result = True,
              show_steps = False, is_request = False, status_code = 400,
              cache_control = 65535, data = []\<rparr>, []), ())"
  by (simp add: server_eval)

theorem C8_evaluation_errors_are_client_errors_witness:
  "is_request empty_request
   \<and> calculate (one_by_zero :: (real, unit) expr) [] ()
       = (Inl ZeroDivisionError, [one_by_zero], ())
   \<and> server_process_request (codec_of one_by_zero) 0 empty_request ()
     = (Inr (\<lparr>unix_time_stamp = 0, total_length = 12, reserved = 0, cache_result = True,
              show_steps = False, is_request = False, status_code = 400,
              cache_control = 65535, data = []\<rparr>, []), ())"
  using C8_evaluation_errors_are_client_errors[of empty_request "codec_of one_by_zero"
      one_by_zero "()" ZeroDivisionError "[one_by_zero]" "()" 0]
  by (simp add: server_eval one_by_zero_def BINARY_OPERATORS_DIV_def)


subsection \<open>Lemmas on the cache resolver\<close>

lemma proxy_process_request_eq:
  "proxy_process_request request cache up =
     (if \<not> is_request request
      then (Inl (TypeError ''Received a response instead of a request''), cache, False)
      else
        case (if cache_control request \<noteq> 0 then cache (data request, show_steps request)
              else None) of
          None \<Rightarrow> forward_upstream request cache up False
        | Some entry \<Rightarrow>
            let age0 = time_at_lookup up - unix_time_stamp entry;
                server0 = time_remaining (cache_control entry) age0;
                client0 = time_remaining (cache_control request) age0
            in if positive server0 \<and> positive client0
               then (Inr (entry, server0, client0, True, False, False), cache, False)
               else forward_upstream request cache up True)"
  by (cases "cache (data request, show_steps request)")
    (simp_all add: proxy_process_request_def forward_upstream_def Let_def
      split: sum.splits prod.splits)

lemma forward_upstream_contacts:
  "snd (snd (forward_upstream request cache up stale))"
  by (simp add: forward_upstream_def Let_def split: sum.splits prod.splits)

lemma forward_upstream_fst:
  "fst (forward_upstream request cache up stale) = fst (forward_upstream request cache' up stale)"
  by (simp add: forward_upstream_def Let_def split: sum.splits prod.splits)

lemma forward_upstream_error:
  "isl (fst (forward_upstream request cache up stale)) \<Longrightarrow>
     fst (snd (forward_upstream request cache up stale)) = cache"
  by (simp add: forward_upstream_def Let_def split: sum.splits prod.splits if_splits)

lemma forward_upstream_result:
  assumes "forward_upstream request cache up stale
             = (Inr (response, server, client, hit, was_stale, cached), cache', contacted)"
  shows "\<not> hit" and "was_stale = stale" and "contacted"
    and "\<exists>sent ws. pack request = Inr sent \<and> unpack (reply up sent) = Inr (response, ws)"
    and "\<not> is_request response"
    and "server = time_remaining (cache_control response)
                    (time_at_response up - unix_time_stamp response)"
    and "client = time_remaining (cache_control request)
                    (time_at_response up - unix_time_stamp response)"
    and "cached = (cache_result request \<and> cache_result response
                    \<and> positive server \<and> positive client)"
    and "cache' = (if cached then cache((data request, show_steps request) \<mapsto> response)
                   else cache)"
  using assms
  by (simp_all add: forward_upstream_def Let_def split: sum.splits prod.splits if_splits)

lemma proxy_hit:
  assumes "is_request request" "cache (data request, show_steps request) = Some entry"
    "cache_control request \<noteq> 0"
    "positive (time_remaining (cache_control entry) (time_at_lookup up - unix_time_stamp entry))"
    "positive (time_remaining (cache_control request) (time_at_lookup up - unix_time_stamp entry))"
  shows "proxy_process_request request cache up =
     (Inr (entry,
           time_remaining (cache_control entry) (time_at_lookup up - unix_time_stamp entry),
           time_remaining (cache_control request) (time_at_lookup up - unix_time_stamp entry),
           True, False, False), cache, False)"
  using assms by (simp add: proxy_process_request_eq Let_def)

lemma proxy_cases:
  "proxy_process_request request cache up
     = (Inl (TypeError ''Received a response instead of a request''), cache, False)
   \<or> (\<exists>entry server0 client0.
         proxy_process_request request cache up
           = (Inr (entry, server0, client0, True, False, False), cache, False))
   \<or> (\<exists>stale. proxy_process_request request cache up
         = forward_upstream request cache up stale)"
  by (simp add: proxy_process_request_eq Let_def split: option.splits) blast

text \<open>What the resolver returns when the request is sent and a response comes back.\<close>

lemma forward_upstream_response:
  assumes "\<not> connection_refused up" "pack request = Inr sent"
    "unpack (reply up sent) = Inr (response, ws)" "\<not> is_request response"
  shows "forward_upstream request cache up stale =
     (Inr (response,
           time_remaining (cache_control response)
             (time_at_response up - unix_time_stamp response),
           time_remaining (cache_control request)
             (time_at_response up - unix_time_stamp response),
           False, stale,
           cache_result request \<and> cache_result response
             \<and> positive (time_remaining (cache_control response)
                   (time_at_response up - unix_time_stamp response))
             \<and> positive (time_remaining (cache_control request)
                   (time_at_response up - unix_time_stamp response))),
      (if cache_result request \<and> cache_result response
             \<and> positive (time_remaining (cache_control response)
                   (time_at_response up - unix_time_stamp response))
             \<and> positive (time_remaining (cache_control request)
                   (time_at_response up - unix_time_stamp response))
       then cache((data request, show_steps request) \<mapsto> response) else cache),
      True)"
  using assms by (simp add: forward_upstream_def Let_def)

lemma forward_upstream_failures:
  "connection_refused up \<Longrightarrow>
     forward_upstream request cache up stale
       = (Inl (CalculatorServerError ''Connection refused by server''), cache, True)"
  "\<not> connection_refused up \<Longrightarrow> pack request = Inl e \<Longrightarrow>
     forward_upstream request cache up stale = (Inl e, cache, True)"
  "\<not> connection_refused up \<Longrightarrow> pack request = Inr sent \<Longrightarrow>
     unpack (reply up sent) = Inl e \<Longrightarrow>
     forward_upstream request cache up stale
       = (Inl (CalculatorClientError ''Error while unpacking request''), cache, True)"
  "\<not> connection_refused up \<Longrightarrow> pack request = Inr sent \<Longrightarrow>
     unpack (reply up sent) = Inr (response, ws) \<Longrightarrow> is_request response \<Longrightarrow>
     forward_upstream request cache up stale
       = (Inl (TypeError ''Received a request instead of a response''), cache, True)"
  by (simp_all add: forward_upstream_def)

lemma proxy_forwards:
  "is_request request \<Longrightarrow>
   cache_control request = 0 \<or> cache (data request, show_steps request) = None \<Longrightarrow>
     proxy_process_request request cache up = forward_upstream request cache up False"
  by (auto simp: proxy_process_request_eq)

lemma proxy_forwards_stale:
  "is_request request \<Longrightarrow> cache_control request \<noteq> 0 \<Longrightarrow>
   cache (data request, show_steps request) = Some entry \<Longrightarrow>
   \<not> (positive (time_remaining (cache_control entry)
                   (time_at_lookup up - unix_time_stamp entry))
      \<and> positive (time_remaining (cache_control request)
                   (time_at_lookup up - unix_time_stamp entry))) \<Longrightarrow>
     proxy_process_request request cache up = forward_upstream request cache up True"
  by (auto simp: proxy_process_request_eq Let_def)

subsection \<open>Claims on the cache resolver\<close>

text \<open>
  Claim C2. A request with cache control 0 bypasses the cache, whatever the cache holds:
  a connection to the server is attempted; when it is refused the resolver raises; when
  it is made, the packed request is sent, and the result is the unpacked reply to those
  bytes, not a hit, with the remaining times computed from the reply (or the exception
  when the request cannot be packed, the reply cannot be unpacked, or the reply is a
  request). The result is the one an empty cache gives. For an entry with cache control
  100 and age 50, a request with cache control 200 gets the entry as a hit, without a
  connection to the server, with 50 seconds remaining for the server and 150 for the
  client. A cache control of 65535 is an unbounded tolerance: the remaining time is
  infinite at every age, so an entry is a hit whenever each side has cache control 65535
  or a cache control above the age.
\<close>

theorem C2_cache_lookup:
  "(is_request request \<and> cache_control request = 0 \<longrightarrow>
      snd (snd (proxy_process_request request cache up))
      \<and> fst (proxy_process_request request cache up)
          = fst (proxy_process_request request Map.empty up)
      \<and> (connection_refused up \<longrightarrow>
            proxy_process_request request cache up
              = (Inl (CalculatorServerError ''Connection refused by server''), cache, True))
      \<and> (\<not> connection_refused up \<and> pack request = Inl e \<longrightarrow>
            proxy_process_request request cache up = (Inl e, cache, True))
      \<and> (\<not> connection_refused up \<and> pack request = Inr sent
            \<and> unpack (reply up sent) = Inl e' \<longrightarrow>
            proxy_process_request request cache up
              = (Inl (CalculatorClientError ''Error while unpacking request''), cache, True))
      \<and> (\<not> connection_refused up \<and> pack request = Inr sent
            \<and> unpack (reply up sent) = Inr (response, ws) \<and> is_request response \<longrightarrow>
            proxy_process_request request cache up
              = (Inl (TypeError ''Received a request instead of a response''), cache, True))
      \<and> (\<not> connection_refused up \<and> pack request = Inr sent
            \<and> unpack (reply up sent) = Inr (response, ws) \<and> \<not> is_request response
            \<and> server = time_remaining (cache_control response)
                         (time_at_response up - unix_time_stamp response)
            \<and> client = time_remaining (cache_control request)
                         (time_at_response up - unix_time_stamp response) \<longrightarrow>
            proxy_process_request request cache up
              = (Inr (response, server, client, False, False,
                      cache_result request \<and> cache_result response
                        \<and> positive server \<and> positive client),
                 (if cache_result request \<and> cache_result response
                       \<and> positive server \<and> positive client
                  then cache((data request, show_steps request) \<mapsto> response) else cache),
                 True)))
   \<and> (is_request request \<and> cache (data request, show_steps request) = Some entry
        \<and> cache_control entry = 100 \<and> time_at_lookup up - unix_time_stamp entry = 50
        \<and> cache_control request = 200 \<longrightarrow>
          proxy_process_request request cache up
            = (Inr (entry, Finite 50, Finite 150, True, False, False), cache, False))
   \<and> time_remaining 65535 age = Infinite
   \<and> (is_request request \<and> cache (data request, show_steps request) = Some entry
        \<and> cache_control request \<noteq> 0
        \<and> (cache_control entry = 65535
             \<or> time_at_lookup up - unix_time_stamp entry < cache_control entry)
        \<and> (cache_control request = 65535
             \<or> time_at_lookup up - unix_time_stamp entry < cache_control request) \<longrightarrow>
          proxy_process_request request cache up
            = (Inr (entry,
                 time_remaining (cache_control entry)
                   (time_at_lookup up - unix_time_stamp entry),
                 time_remaining (cache_control request)
                   (time_at_lookup up - unix_time_stamp entry),
                 True, False, False), cache, False))"
proof -
  let ?out = "proxy_process_request request cache up"
  have bypass: "snd (snd ?out)
      \<and> fst ?out = fst (proxy_process_request request Map.empty up)"
    if "is_request request" "cache_control request = 0"
    using that forward_upstream_contacts[of request cache up False]
      forward_upstream_fst[of request cache up False Map.empty]
    by (simp add: proxy_process_request_eq)
  have fwd: "?out = forward_upstream request cache up False"
    if "is_request request" "cache_control request = 0"
    using that by (simp add: proxy_forwards)
  have refused: "?out
      = (Inl (CalculatorServerError ''Connection refused by server''), cache, True)"
    if "is_request request" "cache_control request = 0" "connection_refused up"
    using that by (simp add: fwd forward_upstream_failures(1))
  have unpackable: "?out = (Inl e, cache, True)"
    if "is_request request" "cache_control request = 0" "\<not> connection_refused up"
      "pack request = Inl e"
    using that by (simp add: fwd forward_upstream_failures(2))
  have unreadable: "?out
      = (Inl (CalculatorClientError ''Error while unpacking request''), cache, True)"
    if "is_request request" "cache_control request = 0" "\<not> connection_refused up"
      "pack request = Inr sent" "unpack (reply up sent) = Inl e'"
    using that by (simp add: fwd forward_upstream_failures(3)[of up request sent e'])
  have not_response: "?out
      = (Inl (TypeError ''Received a request instead of a response''), cache, True)"
    if "is_request request" "cache_control request = 0" "\<not> connection_refused up"
      "pack request = Inr sent" "unpack (reply up sent) = Inr (response, ws)"
      "is_request response"
    using that by (simp add: fwd forward_upstream_failures(4)[of up request sent response ws])
  have answered: "?out
      = (Inr (response, server, client, False, False,
              cache_result request \<and> cache_result response
                \<and> positive server \<and> positive client),
         (if cache_result request \<and> cache_result response
               \<and> positive server \<and> positive client
          then cache((data request, show_steps request) \<mapsto> response) else cache),
         True)"
    if "is_request request" "cache_control request = 0" "\<not> connection_refused up"
      "pack request = Inr sent" "unpack (reply up sent) = Inr (response, ws)"
      "\<not> is_request response"
      "server = time_remaining (cache_control response)
                  (time_at_response up - unix_time_stamp response)"
      "client = time_remaining (cache_control request)
                  (time_at_response up - unix_time_stamp response)"
    unfolding fwd[OF that(1,2)] forward_upstream_response[OF that(3,4,5,6)] that(7,8)
    by (rule refl)
  have hit: "?out
            = (Inr (entry,
                 time_remaining (cache_control entry)
                   (time_at_lookup up - unix_time_stamp entry),
                 time_remaining (cache_control request)
                   (time_at_lookup up - unix_time_stamp entry),
                 True, False, False), cache, False)"
    if "is_request request" "cache (data request, show_steps request) = Some entry"
      "cache_control request \<noteq> 0"
      "cache_control entry = 65535
         \<or> time_at_lookup up - unix_time_stamp entry < cache_control entry"
      "cache_control request = 65535
         \<or> time_at_lookup up - unix_time_stamp entry < cache_control request"
  proof (rule proxy_hit)
    show "positive (time_remaining (cache_control entry)
            (time_at_lookup up - unix_time_stamp entry))"
      using that(4) by (auto simp: time_remaining_def INDEFINITE_def MAX_CACHE_CONTROL_def)
    show "positive (time_remaining (cache_control request)
            (time_at_lookup up - unix_time_stamp entry))"
      using that(5) by (auto simp: time_remaining_def INDEFINITE_def MAX_CACHE_CONTROL_def)
  qed (use that in simp_all)
  have scenario: "?out
            = (Inr (entry, Finite 50, Finite 150, True, False, False), cache, False)"
    if "is_request request" "cache (data request, show_steps request) = Some entry"
      "cache_control entry = 100" "time_at_lookup up - unix_time_stamp entry = 50"
      "cache_control request = 200"
    using that hit
    by (simp add: time_remaining_def INDEFINITE_def MAX_CACHE_CONTROL_def)
  have sentinel: "time_remaining 65535 age = Infinite"
    by (simp add: time_remaining_def INDEFINITE_def MAX_CACHE_CONTROL_def)
  have first: "is_request request \<and> cache_control request = 0 \<longrightarrow>
      snd (snd ?out)
      \<and> fst ?out = fst (proxy_process_request request Map.empty up)
      \<and> (connection_refused up \<longrightarrow>
            ?out = (Inl (CalculatorServerError ''Connection refused by server''), cache, True))
      \<and> (\<not> connection_refused up \<and> pack request = Inl e \<longrightarrow>
            ?out = (Inl e, cache, True))
      \<and> (\<not> connection_refused up \<and> pack request = Inr sent
            \<and> unpack (reply up sent) = Inl e' \<longrightarrow>
            ?out = (Inl (CalculatorClientError ''Error while unpacking request''), cache, True))
      \<and> (\<not> connection_refused up \<and> pack request = Inr sent
            \<and> unpack (reply up sent) = Inr (response, ws) \<and> is_request response \<longrightarrow>
            ?out = (Inl (TypeError ''Received a request instead of a response''), cache, True))
      \<and> (\<not> connection_refused up \<and> pack request = Inr sent
            \<and> unpack (reply up sent) = Inr (response, ws) \<and> \<not> is_request response
            \<and> server = time_remaining (cache_control response)
                         (time_at_response up - unix_time_stamp response)
            \<and> client = time_remaining (cache_control request)
                         (time_at_response up - unix_time_stamp response) \<longrightarrow>
            ?out
              = (Inr (response, server, client, False, False,
                      cache_result request \<and> cache_result response
                        \<and> positive server \<and> positive client),
                 (if cache_result request \<and> cache_result response
                       \<and> positive server \<and> positive client
                  then cache((data request, show_steps request) \<mapsto> response) else cache),
                 True))"
    using bypass refused unpackable unreadable not_response answered by blast
  show ?thesis
    using first scenario sentinel hit by blast
qed

lemmas proxy_eval =
  proxy_process_request_def Let_def request_200_def request_reload_def example_cache_def
  example_upstream_def cached_response_def fresh_response_def stale_response_def
  time_remaining_def INDEFINITE_def MAX_CACHE_CONTROL_def pack_def struct_pack_def
  pack_uint_def pack_flags_def be_bytes_2 be_bytes_4
  unpack_def struct_unpack_def be_int_def unpack_flags_def CalculatorHeader_init_def
  header_bounds

text \<open>The bytes of the reloading request, and the response the example server sends.\<close>

lemma pack_request_reload:
  "pack request_reload = Inr [0, 0, 0, 40, 0, 12, 20, 0, 0, 0, 0, 0]"
  by (simp add: proxy_eval)

lemma pack_request_200:
  "pack request_200 = Inr [0, 0, 0, 40, 0, 12, 20, 0, 0, 200, 0, 0]"
  by (simp add: proxy_eval)

lemma example_reply:
  "unpack (reply example_upstream [0, 0, 0, 40, 0, 12, 20, 0, 0, 0, 0, 0])
     = Inr (fresh_response, [])"
  "unpack (reply example_upstream [0, 0, 0, 40, 0, 12, 20, 0, 0, 200, 0, 0])
     = Inr (fresh_response, [])"
  "reply example_upstream [] = []"
  by (simp_all add: proxy_eval)

theorem C2_cache_lookup_witness:
  "pack request_reload = Inr [0, 0, 0, 40, 0, 12, 20, 0, 0, 0, 0, 0]
   \<and> unpack (reply example_upstream [0, 0, 0, 40, 0, 12, 20, 0, 0, 0, 0, 0])
       = Inr (fresh_response, [])
   \<and> reply example_upstream [] = []
   \<and> proxy_process_request request_reload example_cache example_upstream
     = (Inr (fresh_response, Finite 90, Finite (- 10), False, False, False),
        example_cache, True)
   \<and> proxy_process_request request_reload example_cache
         (example_upstream\<lparr>connection_refused := True\<rparr>)
     = (Inl (CalculatorServerError ''Connection refused by server''), example_cache, True)
   \<and> proxy_process_request request_200 example_cache example_upstream
     = (Inr (cached_response, Finite 50, Finite 150, True, False, False),
        example_cache, False)
   \<and> proxy_process_request request_indefinite [([], False) \<mapsto> indefinite_response]
         example_upstream
     = (Inr (indefinite_response, Infinite, Infinite, True, False, False),
        [([], False) \<mapsto> indefinite_response], False)"
proof -
  have r: "is_request request_reload" "cache_control request_reload = 0"
    "\<not> connection_refused example_upstream"
    "\<not> is_request fresh_response"
    by (simp_all add: proxy_eval)
  have v: "time_remaining (cache_control fresh_response)
             (time_at_response example_upstream - unix_time_stamp fresh_response) = Finite 90"
    "time_remaining (cache_control request_reload)
             (time_at_response example_upstream - unix_time_stamp fresh_response)
       = Finite (- 10)"
    by (simp_all add: proxy_eval)
  have a: "proxy_process_request request_reload example_cache example_upstream
     = (Inr (fresh_response, Finite 90, Finite (- 10), False, False, False),
        example_cache, True)"
    using C2_cache_lookup[where request = request_reload and cache = example_cache
        and up = example_upstream and sent = "[0, 0, 0, 40, 0, 12, 20, 0, 0, 0, 0, 0]"
        and response = fresh_response and ws = "[]" and server = "Finite 90"
        and client = "Finite (- 10)"]
      r pack_request_reload example_reply(1) v
    by simp
  have b: "proxy_process_request request_reload example_cache
         (example_upstream\<lparr>connection_refused := True\<rparr>)
     = (Inl (CalculatorServerError ''Connection refused by server''), example_cache, True)"
    using C2_cache_lookup[where request = request_reload and cache = example_cache
        and up = "example_upstream\<lparr>connection_refused := True\<rparr>"] r(1,2)
    by simp
  have c: "proxy_process_request request_200 example_cache example_upstream
     = (Inr (cached_response, Finite 50, Finite 150, True, False, False),
        example_cache, False)"
    using C2_cache_lookup[where request = request_200 and cache = example_cache
        and up = example_upstream and entry = cached_response]
    by (simp add: proxy_eval)
  have d: "proxy_process_request request_indefinite [([], False) \<mapsto> indefinite_response]
         example_upstream
     = (Inr (indefinite_response, Infinite, Infinite, True, False, False),
        [([], False) \<mapsto> indefinite_response], False)"
    using C2_cache_lookup[where request = request_indefinite
        and cache = "[([], False) \<mapsto> indefinite_response]"
        and up = example_upstream and entry = indefinite_response]
    by (simp add: proxy_eval indefinite_response_def request_indefinite_def)
  show ?thesis
    using a b c d pack_request_reload example_reply(1,3) by simp
qed


text \<open>
  Claim C3. A request is forwarded when its cache control is 0 or the cache has no entry
  under its key (payload, steps flag), or when the entry is stale. When the connection is
  made, the packed request is sent and the reply unpacks to a response, the resolver
  returns that response with the remaining times computed from the response's time
  stamp and cache control at the time after the reply, and stores the response under the
  key (over the entry that may be there) exactly when the request's cache flag and the
  response's are set and both remaining times are positive; otherwise the cache is the
  one it was given. Whenever the resolver returns, the cache differs from the one given
  at most under the key and only when the returned flag \<open>cached\<close> is set, which is never
  the case for a hit; when the resolver raises, the cache is left as it was.
\<close>

theorem C3_store_condition:
  "(is_request request
      \<and> (cache_control request = 0 \<or> cache (data request, show_steps request) = None)
      \<and> \<not> connection_refused up \<and> pack request = Inr sent
      \<and> unpack (reply up sent) = Inr (response, ws) \<and> \<not> is_request response
      \<and> server = time_remaining (cache_control response)
                   (time_at_response up - unix_time_stamp response)
      \<and> client = time_remaining (cache_control request)
                   (time_at_response up - unix_time_stamp response) \<longrightarrow>
        proxy_process_request request cache up
          = (Inr (response, server, client, False, False,
                  cache_result request \<and> cache_result response
                    \<and> positive server \<and> positive client),
             (if cache_result request \<and> cache_result response
                   \<and> positive server \<and> positive client
              then cache((data request, show_steps request) \<mapsto> response) else cache),
             True))
   \<and> (is_request request \<and> cache_control request \<noteq> 0
        \<and> cache (data request, show_steps request) = Some entry
        \<and> \<not> (positive (time_remaining (cache_control entry)
                          (time_at_lookup up - unix_time_stamp entry))
             \<and> positive (time_remaining (cache_control request)
                          (time_at_lookup up - unix_time_stamp entry)))
        \<and> \<not> connection_refused up \<and> pack request = Inr sent
        \<and> unpack (reply up sent) = Inr (response, ws) \<and> \<not> is_request response
        \<and> server = time_remaining (cache_control response)
                     (time_at_response up - unix_time_stamp response)
        \<and> client = time_remaining (cache_control request)
                     (time_at_response up - unix_time_stamp response) \<longrightarrow>
          proxy_process_request request cache up
            = (Inr (response, server, client, False, True,
                    cache_result request \<and> cache_result response
                      \<and> positive server \<and> positive client),
               (if cache_result request \<and> cache_result response
                     \<and> positive server \<and> positive client
                then cache((data request, show_steps request) \<mapsto> response) else cache),
               True))
   \<and> (proxy_process_request request cache up
        = (Inr (response', server', client', hit, was_stale, cached), cache', contacted) \<longrightarrow>
        cache' = (if cached then cache((data request, show_steps request) \<mapsto> response')
                  else cache)
        \<and> cached = (\<not> hit \<and> cache_result request \<and> cache_result response'
                      \<and> positive server' \<and> positive client')
        \<and> (\<not> hit \<longrightarrow>
             contacted
             \<and> (\<exists>sent ws. pack request = Inr sent
                   \<and> unpack (reply up sent) = Inr (response', ws))
             \<and> server' = time_remaining (cache_control response')
                           (time_at_response up - unix_time_stamp response')
             \<and> client' = time_remaining (cache_control request)
                           (time_at_response up - unix_time_stamp response')))
   \<and> (isl (fst (proxy_process_request request cache up)) \<longrightarrow>
        fst (snd (proxy_process_request request cache up)) = cache)"
proof -
  let ?out = "proxy_process_request request cache up"
  let ?res = "(Inr (response', server', client', hit, was_stale, cached), cache', contacted)"
  let ?P = "cache' = (if cached then cache((data request, show_steps request) \<mapsto> response')
                  else cache)
        \<and> cached = (\<not> hit \<and> cache_result request \<and> cache_result response'
                      \<and> positive server' \<and> positive client')
        \<and> (\<not> hit \<longrightarrow>
             contacted
             \<and> (\<exists>sent ws. pack request = Inr sent
                   \<and> unpack (reply up sent) = Inr (response', ws))
             \<and> server' = time_remaining (cache_control response')
                           (time_at_response up - unix_time_stamp response')
             \<and> client' = time_remaining (cache_control request)
                           (time_at_response up - unix_time_stamp response'))"
  have fresh: "?out
          = (Inr (response, server, client, False, False,
                  cache_result request \<and> cache_result response
                    \<and> positive server \<and> positive client),
             (if cache_result request \<and> cache_result response
                   \<and> positive server \<and> positive client
              then cache((data request, show_steps request) \<mapsto> response) else cache),
             True)"
    if "is_request request"
      "cache_control request = 0 \<or> cache (data request, show_steps request) = None"
      "\<not> connection_refused up" "pack request = Inr sent"
      "unpack (reply up sent) = Inr (response, ws)" "\<not> is_request response"
      "server = time_remaining (cache_control response)
                   (time_at_response up - unix_time_stamp response)"
      "client = time_remaining (cache_control request)
                   (time_at_response up - unix_time_stamp response)"
    unfolding proxy_forwards[of request cache up, OF that(1,2)]
      forward_upstream_response[OF that(3,4,5,6)]
      that(7,8)
    by (rule refl)
  have stale: "?out
            = (Inr (response, server, client, False, True,
                    cache_result request \<and> cache_result response
                      \<and> positive server \<and> positive client),
               (if cache_result request \<and> cache_result response
                     \<and> positive server \<and> positive client
                then cache((data request, show_steps request) \<mapsto> response) else cache),
               True)"
    if "is_request request" "cache_control request \<noteq> 0"
      "cache (data request, show_steps request) = Some entry"
      "\<not> (positive (time_remaining (cache_control entry)
                          (time_at_lookup up - unix_time_stamp entry))
             \<and> positive (time_remaining (cache_control request)
                          (time_at_lookup up - unix_time_stamp entry)))"
      "\<not> connection_refused up" "pack request = Inr sent"
      "unpack (reply up sent) = Inr (response, ws)" "\<not> is_request response"
      "server = time_remaining (cache_control response)
                   (time_at_response up - unix_time_stamp response)"
      "client = time_remaining (cache_control request)
                   (time_at_response up - unix_time_stamp response)"
    unfolding proxy_forwards_stale[where request = request and cache = cache and up = up
        and entry = entry, OF that(1,2,3,4)]
      forward_upstream_response[OF that(5,6,7,8)] that(9,10)
    by (rule refl)
  have returned: "(?out = ?res \<longrightarrow> ?P) \<and> (isl (fst ?out) \<longrightarrow> fst (snd ?out) = cache)"
  proof -
    consider
      (resp) "?out
        = (Inl (TypeError ''Received a response instead of a request''), cache, False)"
      | (hit) e s0 c0 where "?out = (Inr (e, s0, c0, True, False, False), cache, False)"
      | (fwd) st where "?out = forward_upstream request cache up st"
      using proxy_cases[of request cache up] by blast
    then show ?thesis
    proof cases
      case resp
      then show ?thesis by simp
    next
      case hit
      then show ?thesis by auto
    next
      case fwd
      have "?P" if r: "?out = ?res"
      proof -
        have f: "forward_upstream request cache up st = ?res"
          using r fwd by simp
        show ?thesis
          using forward_upstream_result[OF f] by simp
      qed
      moreover have "isl (fst ?out) \<longrightarrow> fst (snd ?out) = cache"
        using forward_upstream_error[of request cache up st] fwd by simp
      ultimately show ?thesis
        by blast
    qed
  qed
  show ?thesis
    using fresh stale returned by blast
qed

theorem C3_store_condition_witness:
  "pack request_200 = Inr [0, 0, 0, 40, 0, 12, 20, 0, 0, 200, 0, 0]
   \<and> unpack (reply example_upstream [0, 0, 0, 40, 0, 12, 20, 0, 0, 200, 0, 0])
       = Inr (fresh_response, [])
   \<and> proxy_process_request request_200 Map.empty example_upstream
     = (Inr (fresh_response, Finite 90, Finite 190, False, False, True),
        [([], False) \<mapsto> fresh_response], True)
   \<and> proxy_process_request request_200 [([], False) \<mapsto> stale_response] example_upstream
     = (Inr (fresh_response, Finite 90, Finite 190, False, True, True),
        [([], False) \<mapsto> fresh_response], True)
   \<and> proxy_process_request request_reload example_cache example_upstream
     = (Inr (fresh_response, Finite 90, Finite (- 10), False, False, False),
        example_cache, True)"
proof -
  have q: "is_request request_200" "cache_control request_200 \<noteq> 0"
    "is_request request_reload" "cache_control request_reload = 0"
    "\<not> connection_refused example_upstream" "\<not> is_request fresh_response"
    "cache_result request_200" "cache_result fresh_response"
    "data request_200 = []" "\<not> show_steps request_200"
    by (simp_all add: proxy_eval)
  have v: "time_remaining (cache_control fresh_response)
             (time_at_response example_upstream - unix_time_stamp fresh_response) = Finite 90"
    "time_remaining (cache_control request_200)
             (time_at_response example_upstream - unix_time_stamp fresh_response)
       = Finite 190"
    "time_remaining (cache_control request_reload)
             (time_at_response example_upstream - unix_time_stamp fresh_response)
       = Finite (- 10)"
    by (simp_all add: proxy_eval)
  have old: "\<not> (positive (time_remaining (cache_control stale_response)
                    (time_at_lookup example_upstream - unix_time_stamp stale_response))
       \<and> positive (time_remaining (cache_control request_200)
                    (time_at_lookup example_upstream - unix_time_stamp stale_response)))"
    by (simp add: proxy_eval)
  have a: "proxy_process_request request_200 Map.empty example_upstream
     = (Inr (fresh_response, Finite 90, Finite 190, False, False, True),
        [([], False) \<mapsto> fresh_response], True)"
    using C3_store_condition[where request = request_200 and cache = Map.empty
        and up = example_upstream and sent = "[0, 0, 0, 40, 0, 12, 20, 0, 0, 200, 0, 0]"
        and response = fresh_response and ws = "[]" and server = "Finite 90"
        and client = "Finite 190", THEN conjunct1]
      q pack_request_200 example_reply(2) v
    by simp
  have b: "proxy_process_request request_200 [([], False) \<mapsto> stale_response]
         example_upstream
     = (Inr (fresh_response, Finite 90, Finite 190, False, True, True),
        [([], False) \<mapsto> fresh_response], True)"
    using C3_store_condition[where request = request_200
        and cache = "[([], False) \<mapsto> stale_response]"
        and up = example_upstream and sent = "[0, 0, 0, 40, 0, 12, 20, 0, 0, 200, 0, 0]"
        and response = fresh_response and ws = "[]" and server = "Finite 90"
        and client = "Finite 190" and entry = stale_response,
        THEN conjunct2, THEN conjunct1]
      q pack_request_200 example_reply(2) v old
    by simp
  have c: "proxy_process_request request_reload example_cache example_upstream
     = (Inr (fresh_response, Finite 90, Finite (- 10), False, False, False),
        example_cache, True)"
    using C3_store_condition[where request = request_reload and cache = example_cache
        and up = example_upstream and sent = "[0, 0, 0, 40, 0, 12, 20, 0, 0, 0, 0, 0]"
        and response = fresh_response and ws = "[]" and server = "Finite 90"
        and client = "Finite (- 10)", THEN conjunct1]
      q(3,4,5,6) pack_request_reload example_reply(1) v(1,3)
    by simp
  show ?thesis
    using a b c pack_request_200 example_reply(2) by simp
qed

end
